theory Spec2Isabelle
  imports Main
begin

section \<open>Data model of RustlersStatsApp.tsx\<close>

text \<open>
  Numbers of the source are modelled as unbounded integers: every stat value and score the
  ledger handles is a small whole number, far inside the range in which the source's number
  type is exact for addition and negation. (Only \<open>pct\<close> divides; its arithmetic is modelled
  separately.) A \<open>Record<string, Line>\<close> is a finite map from player ids to lines; the ids
  are the strings \<open>uid\<close> builds or a snapshot stores, never the name of a built-in object
  property.
\<close>

datatype StatKey = Pts | Fgm | Fga | Tpm | Tpa | Ftm | Fta | To | Pf

definition STAT_KEYS :: "StatKey list" where
  "STAT_KEYS = [Pts, Fgm, Fga, Tpm, Tpa, Ftm, Fta, To, Pf]"

record Player =
  p_id :: string
  p_no :: string
  p_name :: string
  p_ht :: string
  p_cls :: string
  p_pos :: string

record Line =
  pts :: int
  fgm :: int
  fga :: int
  tpm :: int
  tpa :: int
  ftm :: int
  fta :: int
  to :: int
  pf :: int

text \<open>Reading and writing a line by key: \<open>l[k]\<close> and \<open>l[k] = v\<close> of the source.\<close>

fun lget :: "Line \<Rightarrow> StatKey \<Rightarrow> int" where
  "lget l Pts = pts l"
| "lget l Fgm = fgm l"
| "lget l Fga = fga l"
| "lget l Tpm = tpm l"
| "lget l Tpa = tpa l"
| "lget l Ftm = ftm l"
| "lget l Fta = fta l"
| "lget l To = to l"
| "lget l Pf = pf l"

fun lset :: "Line \<Rightarrow> StatKey \<Rightarrow> int \<Rightarrow> Line" where
  "lset l Pts v = l\<lparr>pts := v\<rparr>"
| "lset l Fgm v = l\<lparr>fgm := v\<rparr>"
| "lset l Fga v = l\<lparr>fga := v\<rparr>"
| "lset l Tpm v = l\<lparr>tpm := v\<rparr>"
| "lset l Tpa v = l\<lparr>tpa := v\<rparr>"
| "lset l Ftm v = l\<lparr>ftm := v\<rparr>"
| "lset l Fta v = l\<lparr>fta := v\<rparr>"
| "lset l To v = l\<lparr>to := v\<rparr>"
| "lset l Pf v = l\<lparr>pf := v\<rparr>"

datatype TeamKey = Girls | Boys

datatype SideKey = Home | Opp

text \<open>A delta is \<open>Partial<Record<StatKey, number>>\<close>: a key is present or absent.\<close>

type_synonym Delta = "StatKey \<rightharpoonup> int"

record HistoryEvent =
  h_id :: string
  h_at :: int
  h_period :: string
  h_side :: SideKey
  h_playerId :: string
  h_label :: string
  h_delta :: Delta
  h_homeScore :: int
  h_oppScore :: int

record UndoAction =
  u_at :: int
  u_label :: string
  u_side :: SideKey
  u_playerId :: string
  u_delta :: Delta
  u_historyId :: "string option"

record Game =
  g_id :: string
  g_team :: TeamKey
  dateISO :: string
  opponent :: string
  location :: string
  g_notes :: string
  homeRosterIds :: "string list"
  oppRoster :: "Player list"
  linesHome :: "string \<rightharpoonup> Line"
  linesOpp :: "string \<rightharpoonup> Line"
  undo :: "UndoAction list"
  period :: string
  scoreHome :: int
  scoreOpp :: int
  history :: "HistoryEvent list"

record Roster =
  girls :: "Player list"
  boys :: "Player list"

fun roster_at :: "Roster \<Rightarrow> TeamKey \<Rightarrow> Player list" where
  "roster_at r Girls = girls r"
| "roster_at r Boys = boys r"

fun roster_put :: "Roster \<Rightarrow> TeamKey \<Rightarrow> Player list \<Rightarrow> Roster" where
  "roster_put r Girls ps = r\<lparr>girls := ps\<rparr>"
| "roster_put r Boys ps = r\<lparr>boys := ps\<rparr>"

record Store =
  roster :: Roster
  s_oppRoster :: Roster
  games :: "Game list"

text \<open>
  The component state that the operations read and write (the \<open>useState\<close> cells of
  \<open>RustlersStatsApp\<close>). Effects that run after rendering (saving the store, expiring
  the toast, re-selecting after the active game changes) are not part of an operation.
\<close>

record App =
  store :: Store
  team :: TeamKey
  activeGameId :: "string option"
  selected :: "(SideKey \<times> string) option"
  quick :: "(SideKey \<times> string) list"
  toast :: string
  editOppRoster :: bool
  hideLeftPanel :: bool

section \<open>Utilities\<close>

text \<open>
  \<open>uid\<close> concatenates the prefix, the hexadecimal digits of a random number and those of
  the clock. Both are inputs of the model.
\<close>

definition uid :: "string \<Rightarrow> string \<times> string \<Rightarrow> string" where
  "uid prefix e = prefix @ ''_'' @ fst e @ ''_'' @ snd e"

definition emptyLine :: Line where
  "emptyLine = \<lparr>pts = 0, fgm = 0, fga = 0, tpm = 0, tpa = 0, ftm = 0, fta = 0, to = 0, pf = 0\<rparr>"

definition clamp0 :: "int \<Rightarrow> int" where
  "clamp0 n = (if n < 0 then 0 else n)"

definition line_or_empty :: "(string \<rightharpoonup> Line) \<Rightarrow> string \<Rightarrow> Line" where
  "line_or_empty lines i = (case lines i of None \<Rightarrow> emptyLine | Some l \<Rightarrow> l)"

definition sumLines :: "(string \<rightharpoonup> Line) \<Rightarrow> string list \<Rightarrow> Line" where
  "sumLines lines ids =
     foldl (\<lambda>tot i. let l = line_or_empty lines i
                     in foldl (\<lambda>t k. lset t k (lget t k + lget l k)) tot STAT_KEYS)
           emptyLine ids"

text \<open>Decimal digits of a whole number.\<close>

definition digit_char :: "nat \<Rightarrow> char" where
  "digit_char d = ''0123456789'' ! d"

fun show_nat :: "nat \<Rightarrow> string" where
  "show_nat n = (if n < 10 then [digit_char n] else show_nat (n div 10) @ [digit_char (n mod 10)])"

definition show_int :: "int \<Rightarrow> string" where
  "show_int n = (if n < 0 then ''-'' @ show_nat (nat (- n)) else show_nat (nat n))"

section \<open>Percentages\<close>

text \<open>
  \<open>pct\<close> divides, multiplies and rounds in the number type of the source, IEEE 754 binary64,
  and prints the result. Integer arithmetic is exact there, division and multiplication are
  not: each returns the double nearest to the exact result, ties to the even significand.
  A non-negative double is modelled by its exact value as a fraction \<open>(a, b)\<close> of integers
  with \<open>0 \<le> a\<close> and \<open>0 < b\<close>, standing for \<open>a / b\<close>; fractions are compared by
  cross-multiplication. The exponent range is not bounded in the model: for whole numbers
  below \<open>2^53\<close>, each of which is a double, no step of \<open>pct\<close> overflows or underflows.
\<close>

type_synonym frac = "int \<times> int"

definition feq :: "frac \<Rightarrow> frac \<Rightarrow> bool" where
  "feq x y = (fst x * snd y = fst y * snd x)"

definition fless :: "frac \<Rightarrow> frac \<Rightarrow> bool" where
  "fless x y = (fst x * snd y < fst y * snd x)"

definition fmul :: "frac \<Rightarrow> frac \<Rightarrow> frac" where
  "fmul x y = (fst x * fst y, snd x * snd y)"

definition fdiv :: "frac \<Rightarrow> frac \<Rightarrow> frac" where
  "fdiv x y = (fst x * snd y, snd x * fst y)"

definition fadd :: "frac \<Rightarrow> frac \<Rightarrow> frac" where
  "fadd x y = (fst x * snd y + fst y * snd x, snd x * snd y)"

definition fsub :: "frac \<Rightarrow> frac \<Rightarrow> frac" where
  "fsub x y = (fst x * snd y - fst y * snd x, snd x * snd y)"

definition ffloor :: "frac \<Rightarrow> int" where
  "ffloor x = fst x div snd x"

definition fceil :: "frac \<Rightarrow> int" where
  "fceil x = - ((- fst x) div snd x)"

definition frac_of_int :: "int \<Rightarrow> frac" where
  "frac_of_int n = (n, 1)"

definition pow2 :: "int \<Rightarrow> frac" where
  "pow2 e = (if 0 \<le> e then (2 ^ nat e, 1) else (1, 2 ^ nat (- e)))"

definition pow10 :: "int \<Rightarrow> frac" where
  "pow10 e = (if 0 \<le> e then (10 ^ nat e, 1) else (1, 10 ^ nat (- e)))"

text \<open>\<open>bits n\<close> is the length of \<open>n\<close> in binary, \<open>ndigits n\<close> in decimal.\<close>

fun bits :: "nat \<Rightarrow> nat" where
  "bits n = (if n = 0 then 0 else Suc (bits (n div 2)))"

fun ndigits :: "nat \<Rightarrow> nat" where
  "ndigits n = (if n = 0 then 0 else Suc (ndigits (n div 10)))"

text \<open>
  For \<open>x > 0\<close>: \<open>ilog2 x\<close> is the \<open>e\<close> with \<open>2^e \<le> x < 2^(e+1)\<close>, and \<open>dexp x\<close> the \<open>n\<close> with
  \<open>10^(n-1) \<le> x < 10^n\<close>.
\<close>

definition ilog2 :: "frac \<Rightarrow> int" where
  "ilog2 x =
     (if \<not> fless x (1, 1) then int (bits (nat (ffloor x))) - 1
      else - int (bits (nat (fceil (fdiv (1, 1) x) - 1))))"

definition dexp :: "frac \<Rightarrow> int" where
  "dexp x =
     (if \<not> fless x (1, 1) then int (ndigits (nat (ffloor x)))
      else 1 - int (ndigits (nat (fceil (fdiv (1, 1) x) - 1))))"

text \<open>The integer nearest to \<open>x\<close>, the even one of two equally near.\<close>

definition round_even :: "frac \<Rightarrow> int" where
  "round_even x =
     (let q = fst x div snd x; r = fst x mod snd x
      in if 2 * r < snd x then q else if snd x < 2 * r then q + 1
         else if even q then q else q + 1)"

text \<open>
  \<open>fl x\<close> is the double nearest to \<open>x \<ge> 0\<close>: \<open>x\<close> is scaled to a significand of 53 bits,
  which is rounded to an integer.
\<close>

definition fl :: "frac \<Rightarrow> frac" where
  "fl x =
     (if fst x = 0 then (0, 1)
      else let u = pow2 (ilog2 x - 52) in fmul (frac_of_int (round_even (fdiv x u))) u)"

text \<open>\<open>Math.round\<close>: the nearest integer, the larger one of two equally near.\<close>

definition Math_round :: "frac \<Rightarrow> int" where
  "Math_round x = ffloor (fadd x (1, 2))"

text \<open>
  The decimal form of a number in a template literal (\<open>Number::toString\<close> of ECMAScript):
  the digits \<open>s\<close>, as few as possible (\<open>k\<close> of them), and the exponent \<open>n\<close> such that
  \<open>s * 10^(n-k)\<close> is a number whose nearest double is \<open>x\<close>; of several such \<open>s\<close> the one
  nearest to \<open>x\<close>. \<open>pick x p\<close> looks for \<open>s\<close> at the scale \<open>10^p\<close>: only the two integers
  around \<open>x / 10^p\<close> can be the nearest. Seventeen digits always suffice.
\<close>

definition pick :: "frac \<Rightarrow> int \<Rightarrow> int option" where
  "pick x p =
     (let lo = ffloor (fdiv x (pow10 p)); hi = lo + 1;
          vlo = fmul (frac_of_int lo) (pow10 p); vhi = fmul (frac_of_int hi) (pow10 p);
          okl = feq (fl vlo) x; okh = feq (fl vhi) x
      in if okl \<and> okh then
           (if fless (fsub x vlo) (fsub vhi x) then Some lo
            else if fless (fsub vhi x) (fsub x vlo) then Some hi
            else if even lo then Some lo else Some hi)
         else if okl then Some lo
         else if okh then Some hi
         else None)"

fun first_k :: "frac \<Rightarrow> int \<Rightarrow> int list \<Rightarrow> (int \<times> int) option" where
  "first_k x n [] = None"
| "first_k x n (k # ks) =
     (case pick x (n - k) of Some s \<Rightarrow> Some (s, k) | None \<Rightarrow> first_k x n ks)"

text \<open>Digits and exponent as text: plain, with a decimal point, or in exponent notation.\<close>

definition render :: "int \<Rightarrow> int \<Rightarrow> int \<Rightarrow> string" where
  "render s k n =
     (let ds = show_int s in
      if k \<le> n \<and> n \<le> 21 then ds @ replicate (nat (n - k)) CHR ''0''
      else if 0 < n \<and> n \<le> 21 then take (nat n) ds @ ''.'' @ drop (nat n) ds
      else if - 6 < n \<and> n \<le> 0 then ''0.'' @ replicate (nat (- n)) CHR ''0'' @ ds
      else (let e = n - 1;
                es = (if e < 0 then ''-'' else ''+'') @ show_int \<bar>e\<bar>
            in if k = 1 then ds @ ''e'' @ es
               else take 1 ds @ ''.'' @ drop 1 ds @ ''e'' @ es))"

definition number_string :: "frac \<Rightarrow> string" where
  "number_string x =
     (if fst x = 0 then ''0''
      else let n = dexp x in
        case first_k x n [1, 2, 3, 4, 5, 6, 7, 8, 9, 10, 11, 12, 13, 14, 15, 16, 17] of
          None \<Rightarrow> render (ffloor (fdiv x (pow10 (n - 17)))) 17 n
        | Some (s, k) \<Rightarrow> if s = 10 ^ nat k then render (10 ^ nat (k - 1)) k (n + 1)
                         else render s k n)"

text \<open>
  \<open>pct\<close> itself: \<open>if (!att) return ""\<close>, else
  \<open>Math.round((made / att) * 1000) / 10\<close> followed by \<open>%\<close>.
\<close>

definition pct :: "nat \<Rightarrow> nat \<Rightarrow> string" where
  "pct made att =
     (if att = 0 then []
      else number_string
             (fl (fdiv (frac_of_int (Math_round
                  (fl (fmul (fl (fdiv (frac_of_int (int made)) (frac_of_int (int att))))
                            (frac_of_int 1000)))))
                       (frac_of_int 10))) @ ''%'')"

section \<open>The active game\<close>

definition activeGame :: "App \<Rightarrow> Game option" where
  "activeGame app =
     (case activeGameId app of
        None \<Rightarrow> None
      | Some i \<Rightarrow> if i = [] then None else find (\<lambda>g. g_id g = i) (games (store app)))"

text \<open>
  \<open>updateGame\<close> merges a patch into every game of the store that carries the active game's
  id. The patch is a record update whose values were computed from the active game.
\<close>

definition updateGame :: "App \<Rightarrow> (Game \<Rightarrow> Game) \<Rightarrow> App" where
  "updateGame app patch =
     (case activeGame app of
        None \<Rightarrow> app
      | Some a \<Rightarrow>
          app\<lparr>store := (store app)\<lparr>games :=
            map (\<lambda>g. if g_id g = g_id a then patch g else g) (games (store app))\<rparr>\<rparr>)"

definition PERIODS :: "string list" where
  "PERIODS = [''Q1'', ''Q2'', ''Q3'', ''Q4'', ''OT'']"

section \<open>Event ledger\<close>

definition linesOf :: "Game \<Rightarrow> SideKey \<Rightarrow> (string \<rightharpoonup> Line)" where
  "linesOf g s = (if s = Home then linesHome g else linesOpp g)"

definition setLines :: "SideKey \<Rightarrow> (string \<rightharpoonup> Line) \<Rightarrow> Game \<Rightarrow> Game" where
  "setLines s m g = (if s = Home then g\<lparr>linesHome := m\<rparr> else g\<lparr>linesOpp := m\<rparr>)"

text \<open>The loop \<open>for (const k of STAT_KEYS) if (delta[k] != null) next[k] = clamp0(next[k] + delta[k])\<close>.\<close>

definition addDelta :: "Line \<Rightarrow> Delta \<Rightarrow> Line" where
  "addDelta cur delta =
     foldl (\<lambda>next k. case delta k of
                        None \<Rightarrow> next
                      | Some d \<Rightarrow> lset next k (clamp0 (lget next k + d)))
           cur STAT_KEYS"

definition ptsOf :: "Delta \<Rightarrow> int" where
  "ptsOf delta = (case delta Pts of None \<Rightarrow> 0 | Some d \<Rightarrow> d)"

definition bumpHome :: "SideKey \<Rightarrow> int \<Rightarrow> int \<Rightarrow> int" where
  "bumpHome s score d = (if d \<noteq> 0 \<and> s = Home then clamp0 (score + d) else score)"

definition bumpOpp :: "SideKey \<Rightarrow> int \<Rightarrow> int \<Rightarrow> int" where
  "bumpOpp s score d = (if d \<noteq> 0 \<and> s \<noteq> Home then clamp0 (score + d) else score)"

record ApplyEnv =
  env_uid :: "string \<times> string"
  env_at_ev :: int
  env_at_undo :: int

definition periodOr :: "string \<Rightarrow> string" where
  "periodOr p = (if p = [] then ''Q1'' else p)"

definition applyDelta :: "App \<Rightarrow> SideKey \<Rightarrow> string \<Rightarrow> Delta \<Rightarrow> string \<Rightarrow> ApplyEnv \<Rightarrow> App" where
  "applyDelta app sideKey playerId delta label env =
     (case activeGame app of
        None \<Rightarrow> app
      | Some a \<Rightarrow>
          let curLines = linesOf a sideKey;
              cur = line_or_empty curLines playerId;
              next = addDelta cur delta;
              ptsDelta = ptsOf delta;
              sHome = bumpHome sideKey (scoreHome a) ptsDelta;
              sOpp = bumpOpp sideKey (scoreOpp a) ptsDelta;
              historyId = uid ''h'' (env_uid env);
              ev = \<lparr>h_id = historyId, h_at = env_at_ev env, h_period = periodOr (period a),
                    h_side = sideKey, h_playerId = playerId, h_label = label, h_delta = delta,
                    h_homeScore = sHome, h_oppScore = sOpp\<rparr>;
              undoAction = \<lparr>u_at = env_at_undo env, u_label = label, u_side = sideKey,
                            u_playerId = playerId, u_delta = delta,
                            u_historyId = Some historyId\<rparr>
          in (updateGame app
                (\<lambda>g. (setLines sideKey (curLines(playerId \<mapsto> next)) g)
                        \<lparr>undo := take 300 (undoAction # undo a),
                         scoreHome := sHome,
                         scoreOpp := sOpp,
                         history := take 500 (ev # history a)\<rparr>))
             \<lparr>toast := label\<rparr>)"

definition negDelta :: "Delta \<Rightarrow> Delta" where
  "negDelta delta = (\<lambda>k. case delta k of None \<Rightarrow> None | Some d \<Rightarrow> Some (- d))"

definition dropHistory :: "string option \<Rightarrow> HistoryEvent list \<Rightarrow> HistoryEvent list" where
  "dropHistory hid hist =
     (case hid of
        None \<Rightarrow> hist
      | Some h \<Rightarrow>
          if h = [] then hist
          else if hist \<noteq> [] \<and> h_id (hd hist) = h then tl hist
          else filter (\<lambda>e. h_id e \<noteq> h) hist)"

definition undoLast :: "App \<Rightarrow> App" where
  "undoLast app =
     (case activeGame app of
        None \<Rightarrow> app\<lparr>toast := ''Nothing to undo''\<rparr>
      | Some a \<Rightarrow>
          (case undo a of
             [] \<Rightarrow> app\<lparr>toast := ''Nothing to undo''\<rparr>
           | lastA # rest \<Rightarrow>
               let neg = negDelta (u_delta lastA);
                   curLines = linesOf a (u_side lastA);
                   cur = line_or_empty curLines (u_playerId lastA);
                   next = addDelta cur neg;
                   ptsNeg = ptsOf neg;
                   sHome = bumpHome (u_side lastA) (scoreHome a) ptsNeg;
                   sOpp = bumpOpp (u_side lastA) (scoreOpp a) ptsNeg;
                   hist = dropHistory (u_historyId lastA) (history a)
               in (updateGame app
                     (\<lambda>g. (setLines (u_side lastA) (curLines(u_playerId lastA \<mapsto> next)) g)
                             \<lparr>undo := rest,
                              scoreHome := sHome,
                              scoreOpp := sOpp,
                              history := hist\<rparr>))
                  \<lparr>toast := ''Undo: '' @ u_label lastA\<rparr>))"

text \<open>
  No clamp is triggered when \<open>delta\<close> is applied to the player's line and then undone: every
  value handed to \<open>clamp0\<close> on the way forward (\<open>v + d\<close>) and on the way back
  (\<open>v + d + - d\<close>) is non-negative, for the stat keys the delta carries and, when its
  \<open>pts\<close> component is not zero, for the score of the side.
\<close>

definition sideScore :: "Game \<Rightarrow> SideKey \<Rightarrow> int" where
  "sideScore g s = (if s = Home then scoreHome g else scoreOpp g)"

definition noClamp :: "Game \<Rightarrow> SideKey \<Rightarrow> string \<Rightarrow> Delta \<Rightarrow> bool" where
  "noClamp a s p delta =
     ((\<forall>k \<in> set STAT_KEYS.
         case delta k of
           None \<Rightarrow> True
         | Some d \<Rightarrow> 0 \<le> lget (line_or_empty (linesOf a s) p) k + d
                    \<and> 0 \<le> lget (line_or_empty (linesOf a s) p) k + d + - d)
      \<and> (ptsOf delta \<noteq> 0 \<longrightarrow>
            0 \<le> sideScore a s + ptsOf delta
          \<and> 0 \<le> sideScore a s + ptsOf delta + - ptsOf delta))"

section \<open>Game record lifecycle\<close>

definition zeroLines :: "string list \<Rightarrow> (string \<rightharpoonup> Line)" where
  "zeroLines ids = foldl (\<lambda>m i. m(i \<mapsto> emptyLine)) Map.empty ids"

definition clearGameStats :: "App \<Rightarrow> App" where
  "clearGameStats app =
     (case activeGame app of
        None \<Rightarrow> app
      | Some a \<Rightarrow>
          (updateGame app
             (\<lambda>g. g\<lparr>linesHome := zeroLines (homeRosterIds a),
                     linesOpp := zeroLines (map p_id (oppRoster a)),
                     undo := [],
                     scoreHome := 0,
                     scoreOpp := 0,
                     history := [],
                     period := ''Q1''\<rparr>))
          \<lparr>toast := ''Cleared game stats''\<rparr>)"

text \<open>\<open>Array.prototype.indexOf\<close>: the first position of the element, or -1.\<close>

fun indexOf :: "'a list \<Rightarrow> 'a \<Rightarrow> int" where
  "indexOf [] x = - 1"
| "indexOf (y # ys) x =
     (if y = x then 0 else (let i = indexOf ys x in if i < 0 then - 1 else i + 1))"

definition setPeriod :: "App \<Rightarrow> string \<Rightarrow> App" where
  "setPeriod app p =
     (case activeGame app of
        None \<Rightarrow> app
      | Some a \<Rightarrow> (updateGame app (\<lambda>g. g\<lparr>period := p\<rparr>))\<lparr>toast := ''Period: '' @ p\<rparr>)"

definition nextPeriod :: "App \<Rightarrow> App" where
  "nextPeriod app =
     (case activeGame app of
        None \<Rightarrow> app
      | Some a \<Rightarrow>
          let idx = indexOf PERIODS (periodOr (period a));
              next = PERIODS ! nat (min (int (length PERIODS) - 1) (idx + 1))
          in (updateGame app (\<lambda>g. g\<lparr>period := next\<rparr>))\<lparr>toast := ''Period: '' @ next\<rparr>)"

text \<open>
  \<open>cloneRosterWithNewIds\<close> calls \<open>uid\<close> once per player; \<open>es i\<close> is the randomness and
  clock of the call for the player at position \<open>i\<close>.
\<close>

definition cloneRosterWithNewIds ::
    "Player list \<Rightarrow> string \<Rightarrow> (nat \<Rightarrow> string \<times> string) \<Rightarrow> Player list" where
  "cloneRosterWithNewIds list idPrefix es =
     map (\<lambda>(i, p). \<lparr>p_id = uid idPrefix (es i), p_no = p_no p, p_name = p_name p,
                     p_ht = p_ht p, p_cls = p_cls p, p_pos = p_pos p\<rparr>)
         (enumerate 0 list)"

text \<open>\<open>Object.fromEntries\<close>: later entries overwrite earlier ones with the same key.\<close>

definition fromEntries :: "('k \<times> 'v) list \<Rightarrow> ('k \<rightharpoonup> 'v)" where
  "fromEntries kvs = foldl (\<lambda>m (k, v). m(k \<mapsto> v)) Map.empty kvs"

record NewGameEnv =
  ng_clone_uids :: "nat \<Rightarrow> string \<times> string"
  ng_game_uid :: "string \<times> string"
  ng_today :: string

definition ensureGame :: "App \<Rightarrow> NewGameEnv \<Rightarrow> App" where
  "ensureGame app env =
     (let opponentTemplateRoster = roster_at (s_oppRoster (store app)) (team app);
          gameHomeIds = map p_id (roster_at (roster (store app)) (team app));
          oppR = cloneRosterWithNewIds opponentTemplateRoster ''op'' (ng_clone_uids env);
          g = \<lparr>g_id = uid ''g'' (ng_game_uid env), g_team = team app, dateISO = ng_today env,
               opponent = [], location = [], g_notes = [],
               homeRosterIds = gameHomeIds, oppRoster = oppR,
               linesHome = fromEntries (map (\<lambda>i. (i, emptyLine)) gameHomeIds),
               linesOpp = fromEntries (map (\<lambda>p. (p_id p, emptyLine)) oppR),
               undo = [], period = ''Q1'', scoreHome = 0, scoreOpp = 0, history = []\<rparr>;
          app1 = app\<lparr>store := (store app)\<lparr>games := g # games (store app)\<rparr>,
                     activeGameId := Some (g_id g),
                     editOppRoster := False,
                     hideLeftPanel := True\<rparr>;
          app2 = (case homeRosterIds g of
                    [] \<Rightarrow> app1
                  | firstHome # _ \<Rightarrow>
                      if firstHome = [] then app1
                      else app1\<lparr>selected := Some (Home, firstHome),
                                quick := [(Home, firstHome)]\<rparr>)
      in app2\<lparr>toast := ''New game created''\<rparr>)"

text \<open>\<open>setOppTemplate\<close> of the rosters tab: the only writer of the opponent template.\<close>

definition setOppTemplate :: "App \<Rightarrow> Player list \<Rightarrow> App" where
  "setOppTemplate app next =
     app\<lparr>store := (store app)\<lparr>s_oppRoster :=
       roster_put (s_oppRoster (store app)) (team app) next\<rparr>\<rparr>"

definition makeBlankRoster :: "string \<Rightarrow> (nat \<Rightarrow> string \<times> string) \<Rightarrow> Player list" where
  "makeBlankRoster prefix es =
     map (\<lambda>i. \<lparr>p_id = uid prefix (es i), p_no = [], p_name = [], p_ht = [], p_cls = [],
                p_pos = []\<rparr>) [0..<12]"

section \<open>Sequences of ledger operations\<close>

datatype Op = ApplyOp SideKey string Delta string ApplyEnv | UndoOp

fun step :: "App \<Rightarrow> Op \<Rightarrow> App" where
  "step app (ApplyOp sideKey playerId delta label env) =
     applyDelta app sideKey playerId delta label env"
| "step app UndoOp = undoLast app"

definition run :: "App \<Rightarrow> Op list \<Rightarrow> App" where
  "run app ops = foldl step app ops"

text \<open>
  What identifies a logged event: id, side, player and label. \<open>opKey\<close> is the key of the
  history entry that an apply operation logs, \<open>opUndoKey\<close> that of its undo action.
\<close>

fun isApply :: "Op \<Rightarrow> bool" where
  "isApply (ApplyOp _ _ _ _ _) = True"
| "isApply UndoOp = False"

definition evKey :: "HistoryEvent \<Rightarrow> string \<times> SideKey \<times> string \<times> string" where
  "evKey e = (h_id e, h_side e, h_playerId e, h_label e)"

definition undoKey :: "UndoAction \<Rightarrow> string option \<times> SideKey \<times> string \<times> string" where
  "undoKey u = (u_historyId u, u_side u, u_playerId u, u_label u)"

fun opKey :: "Op \<Rightarrow> string \<times> SideKey \<times> string \<times> string" where
  "opKey (ApplyOp sideKey playerId delta label env) =
     (uid ''h'' (env_uid env), sideKey, playerId, label)"
| "opKey UndoOp = ([], Home, [], [])"

fun opUndoKey :: "Op \<Rightarrow> string option \<times> SideKey \<times> string \<times> string" where
  "opUndoKey (ApplyOp sideKey playerId delta label env) =
     (Some (uid ''h'' (env_uid env)), sideKey, playerId, label)"
| "opUndoKey UndoOp = (None, Home, [], [])"

text \<open>The non-negativity invariant: every stat value of every line, and both scores.\<close>

definition lineOK :: "Line \<Rightarrow> bool" where
  "lineOK l = (\<forall>k \<in> set STAT_KEYS. 0 \<le> lget l k)"

definition gameOK :: "Game \<Rightarrow> bool" where
  "gameOK g =
     ((\<forall>p l. linesHome g p = Some l \<longrightarrow> lineOK l)
      \<and> (\<forall>p l. linesOpp g p = Some l \<longrightarrow> lineOK l)
      \<and> 0 \<le> scoreHome g \<and> 0 \<le> scoreOpp g)"

definition storeOK :: "App \<Rightarrow> bool" where
  "storeOK app = (\<forall>g \<in> set (games (store app)). gameOK g)"

section \<open>Store lifecycle: loading a persisted snapshot\<close>

text \<open>
  The value \<open>JSON.parse\<close> returns. Numbers are integers, as everywhere in this model; an
  object is the list of its own properties, each key once, looked up by key. \<open>undefined\<close> is
  \<open>None\<close> of \<open>json option\<close>.
\<close>

datatype json =
    JNull
  | JBool bool
  | JNum int
  | JStr string
  | JArr "json list"
  | JObj "(string \<times> json) list"

text \<open>
  \<open>own v k\<close> is the property read \<open>v[k]\<close> on a value that is not \<open>null\<close>: the own data
  properties of an object, and the elements of an array under their index. Every other
  property a read can reach is inherited or built in (\<open>length\<close>, methods, the characters of a
  string); its value has none of the nine stat keys, so \<open>toLineAny\<close> maps it to the zero
  line exactly as it maps \<open>undefined\<close>, and none of the field names read below is one of
  them.
\<close>

fun own :: "json \<Rightarrow> string \<Rightarrow> json option" where
  "own (JObj fs) k = map_of fs k"
| "own (JArr xs) k =
     (case find (\<lambda>i. show_nat i = k) [0..<length xs] of
        None \<Rightarrow> None
      | Some i \<Rightarrow> Some (xs ! i))"
| "own _ k = None"

text \<open>\<open>!v\<close> of the source.\<close>

fun falsy :: "json option \<Rightarrow> bool" where
  "falsy None = True"
| "falsy (Some JNull) = True"
| "falsy (Some (JBool b)) = (\<not> b)"
| "falsy (Some (JNum n)) = (n = 0)"
| "falsy (Some (JStr s)) = (s = [])"
| "falsy (Some (JArr _)) = False"
| "falsy (Some (JObj _)) = False"

text \<open>The string a value becomes when it is used as a property key.\<close>

fun join_comma :: "string list \<Rightarrow> string" where
  "join_comma [] = []"
| "join_comma [x] = x"
| "join_comma (x # y # ys) = x @ '','' @ join_comma (y # ys)"

fun js_string :: "json \<Rightarrow> string" where
  "js_string JNull = ''null''"
| "js_string (JBool b) = (if b then ''true'' else ''false'')"
| "js_string (JNum n) = show_int n"
| "js_string (JStr s) = s"
| "js_string (JArr xs) = join_comma (map (\<lambda>x. if x = JNull then [] else js_string x) xs)"
| "js_string (JObj fs) = ''[object Object]''"

definition js_key :: "json option \<Rightarrow> string" where
  "js_key v = (case v of None \<Rightarrow> ''undefined'' | Some x \<Rightarrow> js_string x)"

fun key_name :: "StatKey \<Rightarrow> string" where
  "key_name Pts = ''pts''"
| "key_name Fgm = ''fgm''"
| "key_name Fga = ''fga''"
| "key_name Tpm = ''tpm''"
| "key_name Tpa = ''tpa''"
| "key_name Ftm = ''ftm''"
| "key_name Fta = ''fta''"
| "key_name To = ''to''"
| "key_name Pf = ''pf''"


definition numOr0 :: "json option \<Rightarrow> int" where
  "numOr0 v = (case v of Some (JNum n) \<Rightarrow> n | _ \<Rightarrow> 0)"

definition toLineAny :: "json option \<Rightarrow> Line" where
  "toLineAny obj =
     (case obj of
        None \<Rightarrow> emptyLine
      | Some v \<Rightarrow>
          if falsy (Some v) then emptyLine
          else foldl (\<lambda>base k. lset base k (numOr0 (own v (key_name k)))) emptyLine STAT_KEYS)"

text \<open>\<open>v?.[k]\<close>: \<open>undefined\<close> when \<open>v\<close> is \<open>null\<close> or \<open>undefined\<close>.\<close>

definition opt_index :: "json option \<Rightarrow> string \<Rightarrow> json option" where
  "opt_index v k = (case v of None \<Rightarrow> None | Some JNull \<Rightarrow> None | Some x \<Rightarrow> own x k)"

definition normLines :: "json option \<Rightarrow> string list \<Rightarrow> (string \<rightharpoonup> Line)" where
  "normLines stored ids = foldl (\<lambda>m i. m(i \<mapsto> toLineAny (opt_index stored i))) Map.empty ids"

text \<open>
  A game as \<open>loadStore\<close> returns it: the stored object (whose other fields the spread
  \<open>...g\<close> carries over) and the fields the migration writes.
\<close>

record LoadedGame =
  lg_rest :: json
  lg_linesHome :: "string \<rightharpoonup> Line"
  lg_linesOpp :: "string \<rightharpoonup> Line"
  lg_period :: json
  lg_scoreHome :: int
  lg_scoreOpp :: int
  lg_history :: "json list"
  lg_undo :: "json list"

definition arrayOrEmpty :: "json option \<Rightarrow> json list" where
  "arrayOrEmpty v = (case v of Some (JArr xs) \<Rightarrow> xs | _ \<Rightarrow> [])"

text \<open>
  The function mapped over \<open>parsed.games\<close>. \<open>None\<close> is the \<open>TypeError\<close> of a property
  read on \<open>null\<close>: the game itself, or a player of its opponent roster.
\<close>

definition homeIdsOf :: "json \<Rightarrow> string list" where
  "homeIdsOf g = map (\<lambda>x. js_key (Some x)) (arrayOrEmpty (own g ''homeRosterIds''))"

definition oppIdsOf :: "json \<Rightarrow> string list" where
  "oppIdsOf g = map (\<lambda>p. js_key (own p ''id'')) (arrayOrEmpty (own g ''oppRoster''))"

definition migrateGame :: "json \<Rightarrow> LoadedGame option" where
  "migrateGame g =
     (if g = JNull then None
      else if JNull \<in> set (arrayOrEmpty (own g ''oppRoster'')) then None
      else
        let homeIds = homeIdsOf g;
            oppIds = oppIdsOf g;
            lh = normLines (own g ''linesHome'') homeIds;
            lo = normLines (own g ''linesOpp'') oppIds;
            homePts = pts (sumLines lh homeIds);
            oppPts = pts (sumLines lo oppIds)
        in Some \<lparr>lg_rest = g,
                 lg_linesHome = lh,
                 lg_linesOpp = lo,
                 lg_period = (case own g ''period'' of
                                None \<Rightarrow> JStr ''Q1''
                              | Some v \<Rightarrow> if falsy (Some v) then JStr ''Q1'' else v),
                 lg_scoreHome = (case own g ''scoreHome'' of Some (JNum n) \<Rightarrow> n | _ \<Rightarrow> homePts),
                 lg_scoreOpp = (case own g ''scoreOpp'' of Some (JNum n) \<Rightarrow> n | _ \<Rightarrow> oppPts),
                 lg_history = arrayOrEmpty (own g ''history''),
                 lg_undo = arrayOrEmpty (own g ''undo'')\<rparr>)"

definition defaultStore :: "(nat \<Rightarrow> string \<times> string) \<Rightarrow> Store" where
  "defaultStore es =
     \<lparr>roster = \<lparr>girls = makeBlankRoster ''p'' es,
                 boys = makeBlankRoster ''p'' (\<lambda>i. es (12 + i))\<rparr>,
      s_oppRoster = \<lparr>girls = makeBlankRoster ''opT'' (\<lambda>i. es (24 + i)),
                      boys = makeBlankRoster ''opT'' (\<lambda>i. es (36 + i))\<rparr>,
      games = []\<rparr>"

text \<open>
  What \<open>loadStore\<close> returns when the snapshot is used: the parsed object, the blank opponent
  templates if the field was missing, and the migrated games if \<open>games\<close> was an array.
\<close>

record LoadedStore =
  ls_parsed :: json
  ls_oppRoster :: "Roster option"
  ls_games :: "LoadedGame list option"

text \<open>
  \<open>raw = None\<close> stands for a snapshot that is absent, empty or not parseable. \<open>Inl\<close> is the
  \<open>catch\<close> branch. On a primitive the assignment to \<open>parsed.oppRoster\<close> throws (module code
  is strict), on \<open>null\<close> the read does.
\<close>

definition loadStore :: "json option \<Rightarrow> (nat \<Rightarrow> string \<times> string) \<Rightarrow> Store + LoadedStore" where
  "loadStore raw es =
     (case raw of
        None \<Rightarrow> Inl (defaultStore (\<lambda>i. es (24 + i)))
      | Some parsed \<Rightarrow>
          if \<not> (case parsed of JArr _ \<Rightarrow> True | JObj _ \<Rightarrow> True | _ \<Rightarrow> False)
          then Inl (defaultStore (\<lambda>i. es (24 + i)))
          else
            let opp = (if falsy (own parsed ''oppRoster'')
                       then Some \<lparr>girls = makeBlankRoster ''opT'' es,
                                  boys = makeBlankRoster ''opT'' (\<lambda>i. es (12 + i))\<rparr>
                       else None)
            in (case own parsed ''games'' of
                  Some (JArr gs) \<Rightarrow>
                    (case those (map migrateGame gs) of
                       None \<Rightarrow> Inl (defaultStore (\<lambda>i. es (24 + i)))
                     | Some lgs \<Rightarrow> Inr \<lparr>ls_parsed = parsed, ls_oppRoster = opp,
                                         ls_games = Some lgs\<rparr>)
                | _ \<Rightarrow> Inr \<lparr>ls_parsed = parsed, ls_oppRoster = opp, ls_games = None\<rparr>))"

section \<open>A concrete game\<close>

text \<open>
  The example scenario: one home player, one opponent player, every stat at zero, score 0-0,
  period Q1, and an empty ledger.
\<close>

definition exampleGame :: Game where
  "exampleGame =
     \<lparr>g_id = ''g_1a_2b'', g_team = Girls, dateISO = ''2026-01-10'', opponent = ''Eagles'',
      location = ''Home gym'', g_notes = [], homeRosterIds = [''p_1_1''],
      oppRoster = [\<lparr>p_id = ''op_7_1'', p_no = ''4'', p_name = ''Guest'', p_ht = [], p_cls = [],
                     p_pos = ''G''\<rparr>],
      linesHome = [''p_1_1'' \<mapsto> emptyLine], linesOpp = [''op_7_1'' \<mapsto> emptyLine], undo = [],
      period = ''Q1'', scoreHome = 0, scoreOpp = 0, history = []\<rparr>"

definition exampleApp :: App where
  "exampleApp =
     \<lparr>store = \<lparr>roster = \<lparr>girls = [\<lparr>p_id = ''p_1_1'', p_no = ''3'', p_name = ''P'', p_ht = [],
                                      p_cls = [], p_pos = []\<rparr>], boys = []\<rparr>,
               s_oppRoster = \<lparr>girls = [\<lparr>p_id = ''opT_5_1'', p_no = ''4'', p_name = ''Guest'',
                                          p_ht = [], p_cls = [], p_pos = ''G''\<rparr>], boys = []\<rparr>,
               games = [exampleGame]\<rparr>,
      team = Girls, activeGameId = Some ''g_1a_2b'', selected = Some (Home, ''p_1_1''),
      quick = [(Home, ''p_1_1'')], toast = [], editOppRoster = False, hideLeftPanel = True\<rparr>"

text \<open>The "+2" stat button, and the inputs of one tap: randomness and clock.\<close>

definition plus2 :: Delta where
  "plus2 = [Pts \<mapsto> 2, Fgm \<mapsto> 1, Fga \<mapsto> 1]"

definition exampleEnv :: ApplyEnv where
  "exampleEnv = \<lparr>env_uid = (''8f3a'', ''19a2b''), env_at_ev = 1767225600000,
                  env_at_undo = 1767225600000\<rparr>"

definition playedApp :: App where
  "playedApp = applyDelta exampleApp Home ''p_1_1'' plus2 ''+2'' exampleEnv"

text \<open>The "-TO" correction button.\<close>

definition minusTO :: Delta where
  "minusTO = [To \<mapsto> - 1]"

text \<open>The inputs of one "New Game": randomness and clock of each \<open>uid\<close> call, and the date.\<close>

definition exampleNewGameEnv :: NewGameEnv where
  "exampleNewGameEnv =
     \<lparr>ng_clone_uids = (\<lambda>i. (''c3'', show_nat i)), ng_game_uid = (''77'', ''19a2c''),
      ng_today = ''2026-01-11''\<rparr>"





section \<open>Basic facts\<close>

lemma find_map_same:
  assumes "\<And>g. P (f g) = P g"
  shows "find P (map f xs) = map_option f (find P xs)"
  using assms by (induction xs) auto

lemma activeGame_id: "activeGame app = Some a \<Longrightarrow> activeGameId app = Some (g_id a) \<and> g_id a \<noteq> []"
  by (auto simp: activeGame_def find_Some_iff split: option.splits if_splits)

lemma activeGame_mem: "activeGame app = Some a \<Longrightarrow> a \<in> set (games (store app))"
  by (auto simp: activeGame_def find_Some_iff split: option.splits if_splits)

lemma activeGame_cong:
  "activeGameId b = activeGameId a \<Longrightarrow> games (store b) = games (store a)
     \<Longrightarrow> activeGame b = activeGame a"
  by (simp add: activeGame_def split: option.splits)

lemma activeGame_updateGame:
  assumes "activeGame app = Some a" and "\<And>g. g_id (patch g) = g_id g"
  shows "activeGame (updateGame app patch) = Some (patch a)"
proof -
  let ?f = "\<lambda>g. if g_id g = g_id a then patch g else g"
  have i: "activeGameId app = Some (g_id a)" "g_id a \<noteq> []"
    using activeGame_id[OF assms(1)] by auto
  have fa: "find (\<lambda>g. g_id g = g_id a) (games (store app)) = Some a"
    using assms(1) i by (simp add: activeGame_def)
  have "find (\<lambda>g. g_id g = g_id a) (map ?f (games (store app)))
        = map_option ?f (find (\<lambda>g. g_id g = g_id a) (games (store app)))"
    by (rule find_map_same) (simp add: assms(2))
  then show ?thesis
    using assms(1) i fa by (simp add: updateGame_def activeGame_def)
qed

lemma activeGame_toast [simp]: "activeGame (app\<lparr>toast := t\<rparr>) = activeGame app"
  by (simp add: activeGame_def split: option.splits)

lemma g_id_setLines [simp]: "g_id (setLines s m g) = g_id g"
  by (simp add: setLines_def)

lemma linesOf_setLines_upd:
  "linesOf ((setLines s m g)\<lparr>undo := u, scoreHome := sh, scoreOpp := so, history := h\<rparr>) s' =
     (if s' = s then m else linesOf g s')"
  by (cases s; cases s'; simp add: linesOf_def setLines_def)

lemma activeGame_applyDelta:
  assumes "activeGame app = Some a"
  shows "activeGame (applyDelta app sideKey playerId delta label env) =
    Some ((setLines sideKey ((linesOf a sideKey)(playerId \<mapsto> addDelta (line_or_empty (linesOf a sideKey) playerId) delta)) a)
       \<lparr>undo := take 300 (\<lparr>u_at = env_at_undo env, u_label = label, u_side = sideKey,
                            u_playerId = playerId, u_delta = delta,
                            u_historyId = Some (uid ''h'' (env_uid env))\<rparr> # undo a),
         scoreHome := bumpHome sideKey (scoreHome a) (ptsOf delta),
         scoreOpp := bumpOpp sideKey (scoreOpp a) (ptsOf delta),
         history := take 500 (\<lparr>h_id = uid ''h'' (env_uid env), h_at = env_at_ev env, h_period = periodOr (period a),
                    h_side = sideKey, h_playerId = playerId, h_label = label, h_delta = delta,
                    h_homeScore = bumpHome sideKey (scoreHome a) (ptsOf delta), h_oppScore = bumpOpp sideKey (scoreOpp a) (ptsOf delta)\<rparr> # history a)\<rparr>)"
  using assms by (simp add: applyDelta_def Let_def activeGame_updateGame)

lemma activeGame_undoLast:
  assumes "activeGame app = Some a" and "undo a = lastA # rest"
  shows "activeGame (undoLast app) =
    Some ((setLines (u_side lastA)
             ((linesOf a (u_side lastA))(u_playerId lastA \<mapsto>
                addDelta (line_or_empty (linesOf a (u_side lastA)) (u_playerId lastA))
                         (negDelta (u_delta lastA)))) a)
       \<lparr>undo := rest,
         scoreHome := bumpHome (u_side lastA) (scoreHome a) (ptsOf (negDelta (u_delta lastA))),
         scoreOpp := bumpOpp (u_side lastA) (scoreOpp a) (ptsOf (negDelta (u_delta lastA))),
         history := dropHistory (u_historyId lastA) (history a)\<rparr>)"
  using assms by (simp add: undoLast_def Let_def activeGame_updateGame)

lemma lget_lset: "lget (lset l k v) k' = (if k = k' then v else lget l k')"
  by (cases k; cases k'; simp)

lemma Line_eqI:
  fixes l l' :: Line
  assumes "\<And>k. lget l k = lget l' k"
  shows "l = l'"
proof -
  have "pts l = pts l'" "fgm l = fgm l'" "fga l = fga l'" "tpm l = tpm l'" "tpa l = tpa l'"
    "ftm l = ftm l'" "fta l = fta l'" "to l = to l'" "pf l = pf l'"
    using assms[of Pts] assms[of Fgm] assms[of Fga] assms[of Tpm] assms[of Tpa]
      assms[of Ftm] assms[of Fta] assms[of To] assms[of Pf] by simp_all
  then show ?thesis by simp
qed

lemma set_STAT_KEYS: "k \<in> set STAT_KEYS"
  by (cases k) (simp_all add: STAT_KEYS_def)

lemma distinct_STAT_KEYS: "distinct STAT_KEYS"
  by (simp add: STAT_KEYS_def)

lemma lget_fold_keys:
  assumes "distinct ks"
  shows "lget (foldl (\<lambda>next k. case delta k of None \<Rightarrow> next
                                | Some d \<Rightarrow> lset next k (clamp0 (lget next k + d))) cur ks) k
         = (if k \<in> set ks
            then (case delta k of None \<Rightarrow> lget cur k | Some d \<Rightarrow> clamp0 (lget cur k + d))
            else lget cur k)"
  using assms
proof (induction ks arbitrary: cur)
  case Nil
  then show ?case by simp
next
  case (Cons a ks)
  then show ?case
    by (auto simp: lget_lset split: option.splits)
qed

lemma lget_addDelta:
  "lget (addDelta cur delta) k
     = (case delta k of None \<Rightarrow> lget cur k | Some d \<Rightarrow> clamp0 (lget cur k + d))"
  unfolding addDelta_def
  by (simp add: lget_fold_keys[OF distinct_STAT_KEYS] set_STAT_KEYS)

lemma clamp0_nonneg: "0 \<le> clamp0 n"
  by (simp add: clamp0_def)

lemma uid_nonempty: "uid prefix e \<noteq> []"
  by (simp add: uid_def)

lemma run_snoc: "run app (ops @ [op]) = step (run app ops) op"
  by (simp add: run_def)

lemma activeGame_exampleApp: "activeGame exampleApp = Some exampleGame"
  by (simp add: activeGame_def exampleApp_def exampleGame_def)

lemma addDelta_plus2: "addDelta emptyLine plus2 = emptyLine\<lparr>pts := 2, fgm := 1, fga := 1\<rparr>"
  by (simp add: addDelta_def plus2_def STAT_KEYS_def emptyLine_def clamp0_def)

section \<open>Undo after apply\<close>

lemma ptsOf_negDelta: "ptsOf (negDelta delta) = - ptsOf delta"
  by (simp add: ptsOf_def negDelta_def split: option.splits)

lemma addDelta_undo:
  assumes "\<And>k d. delta k = Some d \<Longrightarrow> 0 \<le> lget cur k + d \<and> 0 \<le> lget cur k + d + - d"
  shows "addDelta (addDelta cur delta) (negDelta delta) = cur"
proof (rule Line_eqI)
  fix k
  show "lget (addDelta (addDelta cur delta) (negDelta delta)) k = lget cur k"
  proof (cases "delta k")
    case None
    then show ?thesis by (simp add: lget_addDelta negDelta_def)
  next
    case (Some d)
    with assms[OF Some] show ?thesis
      by (simp add: lget_addDelta negDelta_def clamp0_def)
  qed
qed

lemma bumpHome_undo:
  assumes "d \<noteq> 0 \<longrightarrow> 0 \<le> sideScore a s + d \<and> 0 \<le> sideScore a s + d + - d"
  shows "bumpHome s (bumpHome s (scoreHome a) d) (- d) = scoreHome a"
proof (cases s)
  case Home
  with assms show ?thesis by (auto simp: bumpHome_def sideScore_def clamp0_def)
next
  case Opp
  then show ?thesis by (simp add: bumpHome_def)
qed

lemma bumpOpp_undo:
  assumes "d \<noteq> 0 \<longrightarrow> 0 \<le> sideScore a s + d \<and> 0 \<le> sideScore a s + d + - d"
  shows "bumpOpp s (bumpOpp s (scoreOpp a) d) (- d) = scoreOpp a"
proof (cases s)
  case Home
  then show ?thesis by (simp add: bumpOpp_def)
next
  case Opp
  with assms show ?thesis by (auto simp: bumpOpp_def sideScore_def clamp0_def)
qed

text \<open>
  Claim C1. Let an event with delta \<open>D\<close> be applied to player \<open>P\<close> on a side of the active
  game, and let no clamp be triggered on the way forward or back. Then \<open>undoLast\<close>, run
  immediately afterwards, puts \<open>P\<close>'s line and both scores back to their values before the
  event (every other line is untouched as well), and the history loses exactly its head
  entry, the one whose id is the \<open>historyId\<close> of the popped undo action.
\<close>

theorem undo_after_apply_restores:
  assumes "activeGame app = Some a" and "noClamp a sideKey playerId delta"
  shows "\<exists>a1 a2 ev.
           activeGame (applyDelta app sideKey playerId delta label env) = Some a1
         \<and> activeGame (undoLast (applyDelta app sideKey playerId delta label env)) = Some a2
         \<and> linesOf a2 sideKey playerId = Some (line_or_empty (linesOf a sideKey) playerId)
         \<and> (\<forall>s q. (s, q) \<noteq> (sideKey, playerId) \<longrightarrow> linesOf a2 s q = linesOf a s q)
         \<and> scoreHome a2 = scoreHome a \<and> scoreOpp a2 = scoreOpp a
         \<and> history a1 = ev # history a2
         \<and> u_historyId (hd (undo a1)) = Some (h_id ev)
         \<and> history a2 = take 499 (history a)
         \<and> undo a2 = take 299 (undo a)"
proof -
  let ?app1 = "applyDelta app sideKey playerId delta label env"
  let ?cur = "line_or_empty (linesOf a sideKey) playerId"
  define hid where "hid = uid ''h'' (env_uid env)"
  define ua where "ua = \<lparr>u_at = env_at_undo env, u_label = label, u_side = sideKey,
               u_playerId = playerId, u_delta = delta, u_historyId = Some hid\<rparr>"
  define ev where "ev = \<lparr>h_id = hid, h_at = env_at_ev env,
               h_period = periodOr (period a), h_side = sideKey, h_playerId = playerId,
               h_label = label, h_delta = delta,
               h_homeScore = bumpHome sideKey (scoreHome a) (ptsOf delta),
               h_oppScore = bumpOpp sideKey (scoreOpp a) (ptsOf delta)\<rparr>"
  define a1 where "a1 = (setLines sideKey ((linesOf a sideKey)(playerId \<mapsto> addDelta ?cur delta)) a)
       \<lparr>undo := take 300 (ua # undo a),
         scoreHome := bumpHome sideKey (scoreHome a) (ptsOf delta),
         scoreOpp := bumpOpp sideKey (scoreOpp a) (ptsOf delta),
         history := take 500 (ev # history a)\<rparr>"
  have act1: "activeGame ?app1 = Some a1"
    unfolding a1_def ua_def ev_def hid_def by (rule activeGame_applyDelta[OF assms(1)])
  have u1: "undo a1 = ua # take 299 (undo a)"
    by (simp add: a1_def take_Cons')
  have h1: "history a1 = ev # take 499 (history a)"
    by (simp add: a1_def take_Cons')
  have sc1: "scoreHome a1 = bumpHome sideKey (scoreHome a) (ptsOf delta)"
    "scoreOpp a1 = bumpOpp sideKey (scoreOpp a) (ptsOf delta)"
    by (simp_all add: a1_def)
  have l1: "linesOf a1 s = (if s = sideKey then (linesOf a sideKey)(playerId \<mapsto> addDelta ?cur delta)
                            else linesOf a s)" for s
    unfolding a1_def by (rule linesOf_setLines_upd)
  have keys: "\<And>k d. delta k = Some d \<Longrightarrow> 0 \<le> lget ?cur k + d \<and> 0 \<le> lget ?cur k + d + - d"
    using assms(2) set_STAT_KEYS unfolding noClamp_def by (force split: option.splits)
  have score: "ptsOf delta \<noteq> 0 \<longrightarrow>
      0 \<le> sideScore a sideKey + ptsOf delta \<and> 0 \<le> sideScore a sideKey + ptsOf delta + - ptsOf delta"
    using assms(2) unfolding noClamp_def by blast
  have ua_sel: "u_side ua = sideKey" "u_playerId ua = playerId" "u_delta ua = delta"
    "u_historyId ua = Some hid"
    by (simp_all add: ua_def)
  have cur1: "line_or_empty (linesOf a1 sideKey) playerId = addDelta ?cur delta"
    by (simp add: l1 line_or_empty_def)
  have drop: "dropHistory (Some hid) (history a1) = take 499 (history a)"
    unfolding h1 by (simp add: dropHistory_def uid_nonempty hid_def ev_def)
  define a2 where "a2 = (setLines sideKey
             ((linesOf a1 sideKey)(playerId \<mapsto> addDelta (addDelta ?cur delta) (negDelta delta))) a1)
       \<lparr>undo := take 299 (undo a),
         scoreHome := bumpHome sideKey (scoreHome a1) (ptsOf (negDelta delta)),
         scoreOpp := bumpOpp sideKey (scoreOpp a1) (ptsOf (negDelta delta)),
         history := take 499 (history a)\<rparr>"
  have act2: "activeGame (undoLast ?app1) = Some a2"
    using activeGame_undoLast[OF act1 u1]
    by (simp only: ua_sel cur1 drop a2_def)
  have l2: "linesOf a2 s = (if s = sideKey
              then (linesOf a1 sideKey)(playerId \<mapsto> addDelta (addDelta ?cur delta) (negDelta delta))
              else linesOf a1 s)" for s
    unfolding a2_def by (rule linesOf_setLines_upd)
  have undone: "addDelta (addDelta ?cur delta) (negDelta delta) = ?cur"
    by (rule addDelta_undo) (rule keys)
  have c1: "linesOf a2 sideKey playerId = Some ?cur"
    by (simp add: l2 undone)
  have c2: "\<forall>s q. (s, q) \<noteq> (sideKey, playerId) \<longrightarrow> linesOf a2 s q = linesOf a s q"
    by (simp add: l2 l1)
  have c3: "scoreHome a2 = scoreHome a"
    using bumpHome_undo[OF score] by (simp add: a2_def sc1 ptsOf_negDelta)
  have c4: "scoreOpp a2 = scoreOpp a"
    using bumpOpp_undo[OF score] by (simp add: a2_def sc1 ptsOf_negDelta)
  have c5: "history a2 = take 499 (history a)" "undo a2 = take 299 (undo a)"
    by (simp_all add: a2_def)
  have c6: "history a1 = ev # history a2"
    by (simp add: h1 c5)
  have c7: "u_historyId (hd (undo a1)) = Some (h_id ev)"
    by (simp add: u1 ua_def ev_def)
  have "activeGame ?app1 = Some a1
         \<and> activeGame (undoLast ?app1) = Some a2
         \<and> linesOf a2 sideKey playerId = Some ?cur
         \<and> (\<forall>s q. (s, q) \<noteq> (sideKey, playerId) \<longrightarrow> linesOf a2 s q = linesOf a s q)
         \<and> scoreHome a2 = scoreHome a \<and> scoreOpp a2 = scoreOpp a
         \<and> history a1 = ev # history a2
         \<and> u_historyId (hd (undo a1)) = Some (h_id ev)
         \<and> history a2 = take 499 (history a)
         \<and> undo a2 = take 299 (undo a)"
    by (intro conjI act1 act2 c1 c2 c3 c4 c5 c6 c7)
  then show ?thesis
    by (intro exI)
qed

theorem undo_after_apply_restores_witness:
  "activeGame exampleApp = Some exampleGame
   \<and> noClamp exampleGame Home ''p_1_1'' plus2
   \<and> (\<exists>a1 a2 ev.
           activeGame playedApp = Some a1
         \<and> activeGame (undoLast playedApp) = Some a2
         \<and> linesOf a1 Home ''p_1_1'' = Some (emptyLine\<lparr>pts := 2, fgm := 1, fga := 1\<rparr>)
         \<and> scoreHome a1 = 2
         \<and> linesOf a2 Home ''p_1_1'' = Some emptyLine
         \<and> scoreHome a2 = 0 \<and> scoreOpp a2 = 0
         \<and> history a1 = [ev] \<and> history a2 = [] \<and> undo a2 = [])"
proof -
  have nc: "noClamp exampleGame Home ''p_1_1'' plus2"
    by (simp add: noClamp_def STAT_KEYS_def plus2_def linesOf_def exampleGame_def
        line_or_empty_def emptyLine_def sideScore_def ptsOf_def)
  have cur: "line_or_empty (linesOf exampleGame Home) ''p_1_1'' = emptyLine"
    by (simp add: linesOf_def exampleGame_def line_or_empty_def)
  have sc: "scoreHome exampleGame = 0" "scoreOpp exampleGame = 0" "history exampleGame = []"
    "undo exampleGame = []"
    by (simp_all add: exampleGame_def)
  have p2: "ptsOf plus2 = 2"
    by (simp add: ptsOf_def plus2_def)
  have l1: "\<And>a1. activeGame playedApp = Some a1 \<Longrightarrow>
      linesOf a1 Home ''p_1_1'' = Some (emptyLine\<lparr>pts := 2, fgm := 1, fga := 1\<rparr>) \<and> scoreHome a1 = 2"
    unfolding playedApp_def
    by (auto simp: activeGame_applyDelta[OF activeGame_exampleApp] linesOf_setLines_upd cur
        addDelta_plus2 bumpHome_def p2 clamp0_def sc)
  from undo_after_apply_restores[OF activeGame_exampleApp nc, of "''+2''" exampleEnv]
  obtain a1 a2 ev where
    "activeGame playedApp = Some a1" "activeGame (undoLast playedApp) = Some a2"
    "linesOf a2 Home ''p_1_1'' = Some emptyLine" "scoreHome a2 = 0" "scoreOpp a2 = 0"
    "history a1 = ev # history a2" "history a2 = []" "undo a2 = []"
    unfolding playedApp_def[symmetric] cur sc by auto
  with l1[of a1] activeGame_exampleApp nc show ?thesis
    by auto
qed

section \<open>Non-negativity\<close>

lemma lineOK_emptyLine: "lineOK emptyLine"
  by (simp add: lineOK_def STAT_KEYS_def emptyLine_def)

lemma lineOK_all: "lineOK l \<longleftrightarrow> (\<forall>k. 0 \<le> lget l k)"
  using set_STAT_KEYS by (auto simp: lineOK_def)

lemma lineOK_addDelta: "lineOK cur \<Longrightarrow> lineOK (addDelta cur delta)"
  by (auto simp: lineOK_all lget_addDelta clamp0_nonneg split: option.splits)

lemma lineOK_line_or_empty:
  "(\<forall>p l. m p = Some l \<longrightarrow> lineOK l) \<Longrightarrow> lineOK (line_or_empty m q)"
  by (auto simp: line_or_empty_def lineOK_emptyLine split: option.splits)

lemma bump_nonneg:
  "0 \<le> x \<Longrightarrow> 0 \<le> bumpHome s x d" "0 \<le> x \<Longrightarrow> 0 \<le> bumpOpp s x d"
  by (simp_all add: bumpHome_def bumpOpp_def clamp0_def)

lemma gameOK_lines: "gameOK g \<Longrightarrow> linesOf g s p = Some l \<Longrightarrow> lineOK l"
  by (cases s) (auto simp: gameOK_def linesOf_def)

lemma gameOK_patch:
  assumes "gameOK a" and "gameOK g"
  shows "gameOK ((setLines s ((linesOf a s)(p \<mapsto> addDelta (line_or_empty (linesOf a s) p) delta)) g)
            \<lparr>undo := u, scoreHome := bumpHome s (scoreHome a) d,
              scoreOpp := bumpOpp s (scoreOpp a) d, history := h\<rparr>)"
proof -
  have cur: "lineOK (line_or_empty (linesOf a s) p)"
    using gameOK_lines[OF assms(1)] by (intro lineOK_line_or_empty) blast
  have new: "lineOK l" if "((linesOf a s)(p \<mapsto> addDelta (line_or_empty (linesOf a s) p) delta)) q = Some l"
    for q l
    using that lineOK_addDelta[OF cur] gameOK_lines[OF assms(1)]
    by (auto split: if_splits)
  have sc: "0 \<le> scoreHome a" "0 \<le> scoreOpp a"
    using assms(1) by (simp_all add: gameOK_def)
  show ?thesis
    using assms(2) new sc
    by (cases s) (auto simp: gameOK_def setLines_def bump_nonneg)
qed

lemma storeOK_updateGame:
  assumes "storeOK app" and "\<And>g. gameOK g \<Longrightarrow> gameOK (patch g)"
  shows "storeOK (updateGame app patch)"
  using assms by (auto simp: storeOK_def updateGame_def split: option.splits)

lemma storeOK_toast [simp]: "storeOK (app\<lparr>toast := t\<rparr>) = storeOK app"
  by (simp add: storeOK_def)

lemma storeOK_active: "storeOK app \<Longrightarrow> activeGame app = Some a \<Longrightarrow> gameOK a"
  using activeGame_mem by (auto simp: storeOK_def)

lemma storeOK_applyDelta:
  assumes "storeOK app"
  shows "storeOK (applyDelta app sideKey playerId delta label env)"
proof (cases "activeGame app")
  case None
  then show ?thesis using assms by (simp add: applyDelta_def)
next
  case (Some a)
  have "gameOK a" by (rule storeOK_active[OF assms Some])
  then show ?thesis
    using Some assms
    by (simp add: applyDelta_def Let_def storeOK_updateGame gameOK_patch)
qed

lemma storeOK_undoLast:
  assumes "storeOK app"
  shows "storeOK (undoLast app)"
proof (cases "activeGame app")
  case None
  then show ?thesis using assms by (simp add: undoLast_def)
next
  case (Some a)
  have "gameOK a" by (rule storeOK_active[OF assms Some])
  then show ?thesis
    using Some assms
    by (cases "undo a") (simp_all add: undoLast_def Let_def storeOK_updateGame gameOK_patch)
qed

lemma storeOK_step: "storeOK app \<Longrightarrow> storeOK (step app op)"
  by (cases op) (simp_all add: storeOK_applyDelta storeOK_undoLast)

lemma storeOK_run: "storeOK app \<Longrightarrow> storeOK (run app ops)"
  unfolding run_def by (induction ops arbitrary: app) (simp_all add: storeOK_step)

lemma gameOK_step:
  assumes "activeGame app = Some a" and "gameOK a"
  shows "\<exists>a'. activeGame (step app op) = Some a' \<and> gameOK a'"
proof (cases op)
  case (ApplyOp sideKey playerId delta label env)
  show ?thesis
    unfolding ApplyOp step.simps activeGame_applyDelta[OF assms(1)]
    using gameOK_patch[OF assms(2) assms(2)] by blast
next
  case UndoOp
  show ?thesis
  proof (cases "undo a")
    case Nil
    with assms show ?thesis
      by (simp add: UndoOp undoLast_def)
  next
    case (Cons lastA rest)
    show ?thesis
      unfolding UndoOp step.simps activeGame_undoLast[OF assms(1) Cons]
      using gameOK_patch[OF assms(2) assms(2)] by blast
  qed
qed

lemma gameOK_run:
  assumes "activeGame app = Some a" and "gameOK a"
  shows "\<exists>a'. activeGame (run app ops) = Some a' \<and> gameOK a'"
proof (induction ops rule: rev_induct)
  case Nil
  then show ?case using assms by (simp add: run_def)
next
  case (snoc op ops)
  then obtain a' where "activeGame (run app ops) = Some a'" "gameOK a'"
    by blast
  from gameOK_step[OF this] show ?case
    by (simp add: run_snoc)
qed

text \<open>
  Claim C2. If every stat value of every line and both scores of the active game are
  non-negative, they are so after every operation of any sequence of apply-event and
  undo-last operations (the state after each operation is the state after a prefix of the
  sequence); the same holds of all games of the store together. A delta is never rejected:
  the event is logged, and the value of each key the delta carries becomes the old value
  plus the delta, or 0 if that is negative.
\<close>

theorem nonneg_invariant:
  assumes "activeGame app = Some a" and "gameOK a"
  shows "(\<forall>n. \<exists>a'. activeGame (run app (take n ops)) = Some a' \<and> gameOK a')
       \<and> (storeOK app \<longrightarrow> (\<forall>n. storeOK (run app (take n ops))))
       \<and> (\<forall>sideKey playerId delta label env k d.
            delta k = Some d \<longrightarrow>
            (\<exists>a'. activeGame (applyDelta app sideKey playerId delta label env) = Some a'
                \<and> lget (line_or_empty (linesOf a' sideKey) playerId) k
                   = max 0 (lget (line_or_empty (linesOf a sideKey) playerId) k + d)
                \<and> history a' \<noteq> [] \<and> h_delta (hd (history a')) = delta))"
proof -
  have "\<forall>n. \<exists>a'. activeGame (run app (take n ops)) = Some a' \<and> gameOK a'"
    using gameOK_run[OF assms] by blast
  moreover have "storeOK app \<longrightarrow> (\<forall>n. storeOK (run app (take n ops)))"
    by (simp add: storeOK_run)
  moreover have "\<exists>a'. activeGame (applyDelta app sideKey playerId delta label env) = Some a'
                \<and> lget (line_or_empty (linesOf a' sideKey) playerId) k
                   = max 0 (lget (line_or_empty (linesOf a sideKey) playerId) k + d)
                \<and> history a' \<noteq> [] \<and> h_delta (hd (history a')) = delta"
    if "delta k = Some d" for sideKey playerId delta label env k d
    using that
    by (simp add: activeGame_applyDelta[OF assms(1)] linesOf_setLines_upd line_or_empty_def
        lget_addDelta clamp0_def take_Cons' max_def)
  ultimately show ?thesis by blast
qed

lemma storeOK_exampleApp: "storeOK exampleApp"
  by (simp add: storeOK_def exampleApp_def gameOK_def exampleGame_def lineOK_emptyLine)

lemma gameOK_exampleGame: "gameOK exampleGame"
  by (simp add: gameOK_def exampleGame_def lineOK_emptyLine)

theorem nonneg_invariant_witness:
  "activeGame exampleApp = Some exampleGame \<and> gameOK exampleGame \<and> storeOK exampleApp
   \<and> minusTO To = Some (- 1)
   \<and> (\<forall>n. \<exists>a'. activeGame (run exampleApp
                (take n [ApplyOp Home ''p_1_1'' minusTO ''-TO'' exampleEnv, UndoOp])) = Some a'
              \<and> gameOK a')
   \<and> (\<forall>n. storeOK (run exampleApp
                (take n [ApplyOp Home ''p_1_1'' minusTO ''-TO'' exampleEnv, UndoOp])))
   \<and> (\<exists>a'. activeGame (applyDelta exampleApp Home ''p_1_1'' minusTO ''-TO'' exampleEnv) = Some a'
          \<and> lget (line_or_empty (linesOf a' Home) ''p_1_1'') To = 0
          \<and> history a' \<noteq> [])"
proof -
  have d: "minusTO To = Some (- 1)" by (simp add: minusTO_def)
  have c: "to (line_or_empty (linesOf exampleGame Home) ''p_1_1'') = 0"
    by (simp add: linesOf_def exampleGame_def line_or_empty_def emptyLine_def)
  note inst = nonneg_invariant[OF activeGame_exampleApp gameOK_exampleGame,
      of "[ApplyOp Home ''p_1_1'' minusTO ''-TO'' exampleEnv, UndoOp]"]
  from inst have act: "\<forall>n. \<exists>a'. activeGame (run exampleApp
                (take n [ApplyOp Home ''p_1_1'' minusTO ''-TO'' exampleEnv, UndoOp])) = Some a'
              \<and> gameOK a'"
    by (rule conjunct1)
  from inst storeOK_exampleApp have inv: "\<forall>n. storeOK (run exampleApp
                (take n [ApplyOp Home ''p_1_1'' minusTO ''-TO'' exampleEnv, UndoOp]))"
    by (elim conjE) (rule mp)
  from inst have "minusTO To = Some (- 1) \<longrightarrow>
            (\<exists>a'. activeGame (applyDelta exampleApp Home ''p_1_1'' minusTO ''-TO'' exampleEnv) = Some a'
                \<and> lget (line_or_empty (linesOf a' Home) ''p_1_1'') To
                   = max 0 (lget (line_or_empty (linesOf exampleGame Home) ''p_1_1'') To + - 1)
                \<and> history a' \<noteq> [] \<and> h_delta (hd (history a')) = minusTO)"
    by (elim conjE allE[of _ Home]) (elim allE[of _ "''p_1_1''"]
        allE[of _ minusTO] allE[of _ "''-TO''"] allE[of _ exampleEnv] allE[of _ To]
        allE[of _ "- 1"])
  with d have "\<exists>a'. activeGame (applyDelta exampleApp Home ''p_1_1'' minusTO ''-TO'' exampleEnv) = Some a'
          \<and> lget (line_or_empty (linesOf a' Home) ''p_1_1'') To = 0
          \<and> history a' \<noteq> []"
    by (auto simp: c)
  with activeGame_exampleApp gameOK_exampleGame storeOK_exampleApp d act inv show ?thesis
    by (intro conjI)
qed

section \<open>Bounds of history and undo stack\<close>

lemma take_Cons_take: "0 < n \<Longrightarrow> take n (x # take n xs) = take n (x # xs)"
  by (cases n) simp_all

lemma apply_log:
  assumes "activeGame app = Some a"
  shows "\<exists>a'. activeGame (step app (ApplyOp sideKey playerId delta label env)) = Some a'
           \<and> history a' = take 500 (\<lparr>h_id = uid ''h'' (env_uid env), h_at = env_at_ev env,
                 h_period = periodOr (period a), h_side = sideKey, h_playerId = playerId,
                 h_label = label, h_delta = delta,
                 h_homeScore = bumpHome sideKey (scoreHome a) (ptsOf delta),
                 h_oppScore = bumpOpp sideKey (scoreOpp a) (ptsOf delta)\<rparr> # history a)
           \<and> undo a' = take 300 (\<lparr>u_at = env_at_undo env, u_label = label, u_side = sideKey,
                 u_playerId = playerId, u_delta = delta,
                 u_historyId = Some (uid ''h'' (env_uid env))\<rparr> # undo a)"
  by (simp add: activeGame_applyDelta[OF assms])

lemma apply_log_keys:
  assumes "activeGame app = Some a" and "isApply op"
  shows "\<exists>a'. activeGame (step app op) = Some a'
           \<and> map evKey (history a') = take 500 (opKey op # map evKey (history a))
           \<and> map undoKey (undo a') = take 300 (opUndoKey op # map undoKey (undo a))"
proof -
  from assms(2) obtain sideKey playerId delta label env
    where op: "op = ApplyOp sideKey playerId delta label env"
    by (cases op) auto
  from apply_log[OF assms(1), of sideKey playerId delta label env]
  obtain a' where "activeGame (step app op) = Some a'"
    and "history a' = take 500 (\<lparr>h_id = uid ''h'' (env_uid env), h_at = env_at_ev env,
                 h_period = periodOr (period a), h_side = sideKey, h_playerId = playerId,
                 h_label = label, h_delta = delta,
                 h_homeScore = bumpHome sideKey (scoreHome a) (ptsOf delta),
                 h_oppScore = bumpOpp sideKey (scoreOpp a) (ptsOf delta)\<rparr> # history a)"
    and "undo a' = take 300 (\<lparr>u_at = env_at_undo env, u_label = label, u_side = sideKey,
                 u_playerId = playerId, u_delta = delta,
                 u_historyId = Some (uid ''h'' (env_uid env))\<rparr> # undo a)"
    unfolding op by blast
  then show ?thesis
    by (simp add: op evKey_def undoKey_def take_map)
qed

lemma applies_log:
  assumes "activeGame app = Some a" and "ops \<noteq> []" and "\<forall>op \<in> set ops. isApply op"
  shows "\<exists>a'. activeGame (run app ops) = Some a'
           \<and> map evKey (history a') = take 500 (rev (map opKey ops) @ map evKey (history a))
           \<and> map undoKey (undo a') = take 300 (rev (map opUndoKey ops) @ map undoKey (undo a))"
  using assms(2,3)
proof (induction ops rule: rev_nonempty_induct)
  case (single op)
  then have "isApply op" by simp
  from apply_log_keys[OF assms(1) this] show ?case
    by (simp add: run_def)
next
  case (snoc op ops)
  then obtain a' where a': "activeGame (run app ops) = Some a'"
    and h: "map evKey (history a') = take 500 (rev (map opKey ops) @ map evKey (history a))"
    and u: "map undoKey (undo a') = take 300 (rev (map opUndoKey ops) @ map undoKey (undo a))"
    by auto
  from snoc.prems have "isApply op" by simp
  from apply_log_keys[OF a' this] obtain a''
    where s: "activeGame (step (run app ops) op) = Some a''"
      and h': "map evKey (history a'') = take 500 (opKey op # map evKey (history a'))"
      and u': "map undoKey (undo a'') = take 300 (opUndoKey op # map undoKey (undo a'))"
    by blast
  have hh: "map evKey (history a'')
        = take 500 (opKey op # (rev (map opKey ops) @ map evKey (history a)))"
    unfolding h' h by (rule take_Cons_take) simp
  have uu: "map undoKey (undo a'')
        = take 300 (opUndoKey op # (rev (map opUndoKey ops) @ map undoKey (undo a)))"
    unfolding u' u by (rule take_Cons_take) simp
  have e1: "rev (map opKey (ops @ [op])) @ map evKey (history a)
        = opKey op # (rev (map opKey ops) @ map evKey (history a))"
    by simp
  have e2: "rev (map opUndoKey (ops @ [op])) @ map undoKey (undo a)
        = opUndoKey op # (rev (map opUndoKey ops) @ map undoKey (undo a))"
    by simp
  show ?case
    unfolding run_snoc e1 e2 using s hh uu by blast
qed

text \<open>
  Claim C3. After one or more apply-event operations on the active game the history holds
  the newest 500 entries (the new events, newest first, in front of the old ones, cut at
  500) and the undo stack the newest 300, so their lengths never exceed 500 and 300. On a
  game whose ledger was empty, 501 events leave exactly 500 history entries, the first
  event being the one dropped, and 301 events leave exactly 300 undo actions.
\<close>

theorem history_undo_bounds:
  assumes "activeGame app = Some a" and "ops \<noteq> []" and "\<forall>op \<in> set ops. isApply op"
  shows "\<exists>a'. activeGame (run app ops) = Some a'
           \<and> map evKey (history a') = take 500 (rev (map opKey ops) @ map evKey (history a))
           \<and> map undoKey (undo a') = take 300 (rev (map opUndoKey ops) @ map undoKey (undo a))
           \<and> length (history a') = min 500 (length ops + length (history a))
           \<and> length (undo a') = min 300 (length ops + length (undo a))
           \<and> length (history a') \<le> 500 \<and> length (undo a') \<le> 300
           \<and> (history a = [] \<and> length ops = 501 \<longrightarrow>
                  length (history a') = 500
                \<and> map evKey (history a') = rev (map opKey (tl ops)))
           \<and> (undo a = [] \<and> length ops = 301 \<longrightarrow>
                  length (undo a') = 300
                \<and> map undoKey (undo a') = rev (map opUndoKey (tl ops)))"
proof -
  from applies_log[OF assms] obtain a'
    where r: "activeGame (run app ops) = Some a'"
      and h: "map evKey (history a') = take 500 (rev (map opKey ops) @ map evKey (history a))"
      and u: "map undoKey (undo a') = take 300 (rev (map opUndoKey ops) @ map undoKey (undo a))"
    by blast
  have lh: "length (history a') = min 500 (length ops + length (history a))"
    using arg_cong[OF h, of length] by simp
  have lu: "length (undo a') = min 300 (length ops + length (undo a))"
    using arg_cong[OF u, of length] by simp
  have dropped: "take n (rev (map f ops)) = rev (map f (tl ops))" if "length ops = Suc n"
    for n and f :: "Op \<Rightarrow> 'b"
  proof -
    from that obtain x xs where "ops = x # xs" "length xs = n"
      by (cases ops) auto
    then show ?thesis by simp
  qed
  have h501: "map evKey (history a') = rev (map opKey (tl ops))"
    if "history a = []" "length ops = 501"
    using that h dropped[of 500 opKey] by simp
  have u301: "map undoKey (undo a') = rev (map opUndoKey (tl ops))"
    if "undo a = []" "length ops = 301"
    using that u dropped[of 300 opUndoKey] by simp
  show ?thesis
    using r h u lh lu h501 u301 by auto
qed

theorem history_undo_bounds_witness:
  "activeGame exampleApp = Some exampleGame
   \<and> history exampleGame = [] \<and> undo exampleGame = []
   \<and> isApply (ApplyOp Home ''p_1_1'' plus2 ''+2'' exampleEnv)
   \<and> isApply (ApplyOp Opp ''op_7_1'' minusTO ''-TO'' exampleEnv)
   \<and> length (replicate 501 (ApplyOp Home ''p_1_1'' plus2 ''+2'' exampleEnv)) = 501
   \<and> length (replicate 301 (ApplyOp Opp ''op_7_1'' minusTO ''-TO'' exampleEnv)) = 301
   \<and> (\<exists>a'. activeGame (run exampleApp
                 (replicate 501 (ApplyOp Home ''p_1_1'' plus2 ''+2'' exampleEnv))) = Some a'
           \<and> length (history a') = 500 \<and> length (undo a') = 300)
   \<and> (\<exists>a'. activeGame (run exampleApp
                 (replicate 301 (ApplyOp Opp ''op_7_1'' minusTO ''-TO'' exampleEnv))) = Some a'
           \<and> length (history a') = 301 \<and> length (undo a') = 300)"
proof -
  have e: "history exampleGame = []" "undo exampleGame = []"
    by (simp_all add: exampleGame_def)
  have n1: "replicate 501 (ApplyOp Home ''p_1_1'' plus2 ''+2'' exampleEnv) \<noteq> []"
    and n2: "replicate 301 (ApplyOp Opp ''op_7_1'' minusTO ''-TO'' exampleEnv) \<noteq> []"
    by simp_all
  have i1: "\<forall>op \<in> set (replicate 501 (ApplyOp Home ''p_1_1'' plus2 ''+2'' exampleEnv)). isApply op"
    and i2: "\<forall>op \<in> set (replicate 301 (ApplyOp Opp ''op_7_1'' minusTO ''-TO'' exampleEnv)). isApply op"
    by simp_all
  from history_undo_bounds[OF activeGame_exampleApp n1 i1]
  have w1: "\<exists>a'. activeGame (run exampleApp
                 (replicate 501 (ApplyOp Home ''p_1_1'' plus2 ''+2'' exampleEnv))) = Some a'
           \<and> length (history a') = 500 \<and> length (undo a') = 300"
    by (auto simp: e)
  from history_undo_bounds[OF activeGame_exampleApp n2 i2]
  have w2: "\<exists>a'. activeGame (run exampleApp
                 (replicate 301 (ApplyOp Opp ''op_7_1'' minusTO ''-TO'' exampleEnv))) = Some a'
           \<and> length (history a') = 301 \<and> length (undo a') = 300"
    by (auto simp: e)
  show ?thesis
    using activeGame_exampleApp e w1 w2 by simp
qed

section \<open>Clearing a game\<close>

lemma foldl_upd_const:
  "foldl (\<lambda>m i. m(i \<mapsto> e)) m0 ids j = (if j \<in> set ids then Some e else m0 j)"
  by (induction ids arbitrary: m0) auto

lemma zeroLines_apply: "zeroLines ids i = (if i \<in> set ids then Some emptyLine else None)"
  by (simp add: zeroLines_def foldl_upd_const)

lemma activeGame_clearGameStats:
  assumes "activeGame app = Some a"
  shows "activeGame (clearGameStats app) =
    Some (a\<lparr>linesHome := zeroLines (homeRosterIds a),
             linesOpp := zeroLines (map p_id (oppRoster a)),
             undo := [], scoreHome := 0, scoreOpp := 0, history := [], period := ''Q1''\<rparr>)"
  using assms by (simp add: clearGameStats_def activeGame_updateGame)

text \<open>
  Claim C4. \<open>clearGameStats\<close> gives every home roster id and every opponent player the
  all-zero line, sets both scores to 0, empties history and undo stack and sets the period
  to "Q1", the first period; roster ids, opponent roster, date, opponent name, location and
  notes of the game stay as they were.
\<close>

theorem clearGameStats_resets:
  assumes "activeGame app = Some a"
  shows "\<exists>a'. activeGame (clearGameStats app) = Some a'
           \<and> (\<forall>i \<in> set (homeRosterIds a). linesHome a' i = Some emptyLine)
           \<and> (\<forall>p \<in> set (oppRoster a). linesOpp a' (p_id p) = Some emptyLine)
           \<and> scoreHome a' = 0 \<and> scoreOpp a' = 0
           \<and> history a' = [] \<and> undo a' = []
           \<and> period a' = ''Q1'' \<and> period a' = hd PERIODS
           \<and> homeRosterIds a' = homeRosterIds a \<and> oppRoster a' = oppRoster a
           \<and> dateISO a' = dateISO a \<and> opponent a' = opponent a
           \<and> location a' = location a \<and> g_notes a' = g_notes a"
  by (simp add: activeGame_clearGameStats[OF assms] zeroLines_apply PERIODS_def)

theorem clearGameStats_resets_witness:
  "\<exists>a a'. activeGame playedApp = Some a \<and> scoreHome a = 2 \<and> history a \<noteq> []
         \<and> activeGame (clearGameStats playedApp) = Some a'
         \<and> (\<forall>i \<in> set (homeRosterIds a). linesHome a' i = Some emptyLine)
         \<and> (\<forall>p \<in> set (oppRoster a). linesOpp a' (p_id p) = Some emptyLine)
         \<and> scoreHome a' = 0 \<and> scoreOpp a' = 0 \<and> history a' = [] \<and> undo a' = []
         \<and> period a' = ''Q1'' \<and> homeRosterIds a' = [''p_1_1''] \<and> oppRoster a' = oppRoster a
         \<and> dateISO a' = ''2026-01-10'' \<and> opponent a' = ''Eagles''
         \<and> location a' = ''Home gym'' \<and> g_notes a' = []"
proof -
  obtain a where a: "activeGame playedApp = Some a"
    and s: "scoreHome a = 2" "history a \<noteq> []" "homeRosterIds a = [''p_1_1'']"
      "dateISO a = ''2026-01-10''" "opponent a = ''Eagles''" "location a = ''Home gym''"
      "g_notes a = []"
    unfolding playedApp_def
    by (simp add: activeGame_applyDelta[OF activeGame_exampleApp] exampleGame_def setLines_def
        bumpHome_def ptsOf_def plus2_def clamp0_def)
  from clearGameStats_resets[OF a] show ?thesis
    using a s by auto
qed

section \<open>Creating a game\<close>

lemma fromEntries_const_gen:
  "foldl (\<lambda>m (k, v). m(k \<mapsto> v)) m0 (map (\<lambda>x. (f x, c)) xs) k
     = (if k \<in> f ` set xs then Some c else m0 k)"
  by (induction xs arbitrary: m0) auto

lemma fromEntries_const:
  "fromEntries (map (\<lambda>x. (f x, c)) xs) k = (if k \<in> f ` set xs then Some c else None)"
  by (simp add: fromEntries_def fromEntries_const_gen)

lemma fromEntries_const_comp:
  "fromEntries (map ((\<lambda>i. (i, c)) \<circ> f) xs) k = (if k \<in> f ` set xs then Some c else None)"
  using fromEntries_const[of f c xs k] by (simp add: comp_def)

lemma length_cloneRoster [simp]: "length (cloneRosterWithNewIds list pre es) = length list"
  by (simp add: cloneRosterWithNewIds_def)

lemma nth_cloneRoster:
  "i < length list \<Longrightarrow>
     cloneRosterWithNewIds list pre es ! i = (list ! i)\<lparr>p_id := uid pre (es i)\<rparr>"
  by (simp add: cloneRosterWithNewIds_def nth_enumerate_eq)

lemma uid_op_prefix: "take 3 (uid ''op'' e) = ''op_''"
  by (simp add: uid_def)

lemma uid_opT_prefix: "take 3 (uid ''opT'' e) \<noteq> ''op_''"
  by (simp add: uid_def)

lemma cloneRoster_ids:
  assumes "p \<in> set (cloneRosterWithNewIds list ''op'' es)"
  shows "\<exists>e. p_id p = uid ''op'' e"
proof -
  from assms obtain i where "i < length list" "p = cloneRosterWithNewIds list ''op'' es ! i"
    by (auto simp: in_set_conv_nth)
  then show ?thesis by (intro exI[of _ "es i"]) (simp add: nth_cloneRoster)
qed

lemma ensureGame_games:
  "games (store (ensureGame app env)) =
     \<lparr>g_id = uid ''g'' (ng_game_uid env), g_team = team app, dateISO = ng_today env,
      opponent = [], location = [], g_notes = [],
      homeRosterIds = map p_id (roster_at (roster (store app)) (team app)),
      oppRoster = cloneRosterWithNewIds (roster_at (s_oppRoster (store app)) (team app)) ''op''
                    (ng_clone_uids env),
      linesHome = fromEntries (map (\<lambda>i. (i, emptyLine))
                    (map p_id (roster_at (roster (store app)) (team app)))),
      linesOpp = fromEntries (map (\<lambda>p. (p_id p, emptyLine))
                    (cloneRosterWithNewIds (roster_at (s_oppRoster (store app)) (team app)) ''op''
                       (ng_clone_uids env))),
      undo = [], period = ''Q1'', scoreHome = 0, scoreOpp = 0, history = []\<rparr>
     # games (store app)"
  by (cases "roster_at (roster (store app)) (team app)") (simp_all add: ensureGame_def Let_def)

lemma ensureGame_activeGameId:
  "activeGameId (ensureGame app env) = Some (uid ''g'' (ng_game_uid env))"
  by (simp add: ensureGame_def Let_def split: list.splits)

text \<open>
  Claim C5. \<open>ensureGame\<close> puts a new game in front of the store's game list and makes it
  the active game. Its opponent roster is the opponent template, player by player, each
  with the id that \<open>uid "op"\<close> generated for it. Such an id begins with \<open>op_\<close>, whatever the
  randomness and the clock are, so it differs from every template id that does not: the
  ids the application gives template players begin with \<open>opT_\<close> (\<open>makeBlankRoster "opT"\<close>;
  editing a roster never writes an id). Every id of both sides has the all-zero line, the period
  is Q1, the first period, the score is 0-0, history and undo stack are empty. Replacing
  the template afterwards changes no game of the store.
\<close>

theorem ensureGame_creates:
  "\<exists>g. games (store (ensureGame app env)) = g # games (store app)
       \<and> activeGame (ensureGame app env) = Some g
       \<and> homeRosterIds g = map p_id (roster_at (roster (store app)) (team app))
       \<and> length (oppRoster g) = length (roster_at (s_oppRoster (store app)) (team app))
       \<and> (\<forall>i < length (roster_at (s_oppRoster (store app)) (team app)).
             oppRoster g ! i = (roster_at (s_oppRoster (store app)) (team app) ! i)
                                 \<lparr>p_id := uid ''op'' (ng_clone_uids env i)\<rparr>)
       \<and> (\<forall>p \<in> set (oppRoster g). take 3 (p_id p) = ''op_'')
       \<and> ((\<forall>q \<in> set (roster_at (s_oppRoster (store app)) (team app)).
               take 3 (p_id q) \<noteq> ''op_'')
            \<longrightarrow> (\<forall>p \<in> set (oppRoster g).
                    \<forall>q \<in> set (roster_at (s_oppRoster (store app)) (team app)). p_id p \<noteq> p_id q))
       \<and> (\<forall>i \<in> set (homeRosterIds g). linesHome g i = Some emptyLine)
       \<and> (\<forall>p \<in> set (oppRoster g). linesOpp g (p_id p) = Some emptyLine)
       \<and> period g = ''Q1'' \<and> period g = hd PERIODS
       \<and> scoreHome g = 0 \<and> scoreOpp g = 0 \<and> history g = [] \<and> undo g = []
       \<and> (\<forall>next. games (store (setOppTemplate (ensureGame app env) next))
                    = games (store (ensureGame app env))
                 \<and> activeGame (setOppTemplate (ensureGame app env) next) = Some g)"
proof -
  let ?tmpl = "roster_at (s_oppRoster (store app)) (team app)"
  let ?opp = "cloneRosterWithNewIds ?tmpl ''op'' (ng_clone_uids env)"
  define g where "g = \<lparr>g_id = uid ''g'' (ng_game_uid env), g_team = team app, dateISO = ng_today env,
      opponent = [], location = [], g_notes = [],
      homeRosterIds = map p_id (roster_at (roster (store app)) (team app)),
      oppRoster = ?opp,
      linesHome = fromEntries (map (\<lambda>i. (i, emptyLine))
                    (map p_id (roster_at (roster (store app)) (team app)))),
      linesOpp = fromEntries (map (\<lambda>p. (p_id p, emptyLine)) ?opp),
      undo = [], period = ''Q1'', scoreHome = 0, scoreOpp = 0, history = []\<rparr>"
  have gs: "games (store (ensureGame app env)) = g # games (store app)"
    unfolding g_def by (rule ensureGame_games)
  have gid: "g_id g = uid ''g'' (ng_game_uid env)"
    by (simp add: g_def)
  have act: "activeGame (ensureGame app env) = Some g"
    by (simp add: activeGame_def ensureGame_activeGameId gs gid uid_nonempty)
  have tmpl_games: "games (store (setOppTemplate (ensureGame app env) next))
                    = games (store (ensureGame app env))" for "next"
    by (simp add: setOppTemplate_def)
  have tmpl_act: "activeGame (setOppTemplate (ensureGame app env) next) = Some g" for "next"
    using act activeGame_cong[of "setOppTemplate (ensureGame app env) next" "ensureGame app env"]
    by (simp add: setOppTemplate_def)
  have opp: "oppRoster g = ?opp" by (simp add: g_def)
  have pre: "\<forall>p \<in> set (oppRoster g). take 3 (p_id p) = ''op_''"
  proof
    fix p assume "p \<in> set (oppRoster g)"
    then obtain e where "p_id p = uid ''op'' e"
      unfolding opp using cloneRoster_ids by blast
    then show "take 3 (p_id p) = ''op_''"
      by (simp add: uid_op_prefix)
  qed
  have fresh: "p_id p \<noteq> p_id q"
    if "\<forall>q \<in> set ?tmpl. take 3 (p_id q) \<noteq> ''op_''" "p \<in> set (oppRoster g)" "q \<in> set ?tmpl"
    for p q
  proof -
    from that(2) pre have "take 3 (p_id p) = ''op_''" by blast
    moreover from that(1,3) have "take 3 (p_id q) \<noteq> ''op_''" by blast
    ultimately show ?thesis by auto
  qed
  have lh: "\<forall>i \<in> set (homeRosterIds g). linesHome g i = Some emptyLine"
    by (simp add: g_def fromEntries_const_comp)
  have lo: "\<forall>p \<in> set (oppRoster g). linesOpp g (p_id p) = Some emptyLine"
    by (simp add: g_def fromEntries_const)
  have rest: "homeRosterIds g = map p_id (roster_at (roster (store app)) (team app))"
    "length (oppRoster g) = length ?tmpl"
    "\<forall>i < length ?tmpl. oppRoster g ! i = (?tmpl ! i)\<lparr>p_id := uid ''op'' (ng_clone_uids env i)\<rparr>"
    "period g = ''Q1''" "period g = hd PERIODS" "scoreHome g = 0" "scoreOpp g = 0"
    "history g = []" "undo g = []"
    by (simp_all add: g_def nth_cloneRoster PERIODS_def)
  show ?thesis
    apply (rule exI[of _ g])
    using gs act rest pre fresh lh lo tmpl_games tmpl_act
    apply (intro conjI)
                    apply blast+
    done
qed

theorem ensureGame_creates_witness:
  "take 3 (p_id (hd (roster_at (s_oppRoster (store exampleApp)) (team exampleApp)))) \<noteq> ''op_''
   \<and> (\<exists>g. games (store (ensureGame exampleApp exampleNewGameEnv)) = [g, exampleGame]
          \<and> activeGame (ensureGame exampleApp exampleNewGameEnv) = Some g
          \<and> homeRosterIds g = [''p_1_1'']
          \<and> map p_id (oppRoster g) = [''op_c3_0'']
          \<and> map p_id (roster_at (s_oppRoster (store exampleApp)) (team exampleApp)) = [''opT_5_1'']
          \<and> map p_name (oppRoster g) = [''Guest'']
          \<and> linesHome g ''p_1_1'' = Some emptyLine
          \<and> linesOpp g ''op_c3_0'' = Some emptyLine
          \<and> period g = ''Q1'' \<and> scoreHome g = 0 \<and> scoreOpp g = 0
          \<and> history g = [] \<and> undo g = []
          \<and> games (store (setOppTemplate (ensureGame exampleApp exampleNewGameEnv) []))
               = [g, exampleGame])"
proof -
  have t: "roster_at (s_oppRoster (store exampleApp)) (team exampleApp)
        = [\<lparr>p_id = ''opT_5_1'', p_no = ''4'', p_name = ''Guest'', p_ht = [], p_cls = [],
            p_pos = ''G''\<rparr>]"
    by (simp add: exampleApp_def)
  have h: "map p_id (roster_at (roster (store exampleApp)) (team exampleApp)) = [''p_1_1'']"
    by (simp add: exampleApp_def)
  have gs: "games (store exampleApp) = [exampleGame]"
    by (simp add: exampleApp_def)
  have u: "uid ''op'' (ng_clone_uids exampleNewGameEnv 0) = ''op_c3_0''"
    by (simp add: uid_def exampleNewGameEnv_def digit_char_def)
  from ensureGame_creates[of exampleApp exampleNewGameEnv]
  obtain g where g: "games (store (ensureGame exampleApp exampleNewGameEnv)) = [g, exampleGame]"
    "activeGame (ensureGame exampleApp exampleNewGameEnv) = Some g"
    "homeRosterIds g = [''p_1_1'']"
    "length (oppRoster g) = 1"
    "oppRoster g ! 0 = \<lparr>p_id = ''op_c3_0'', p_no = ''4'', p_name = ''Guest'', p_ht = [],
                          p_cls = [], p_pos = ''G''\<rparr>"
    "\<forall>i \<in> set (homeRosterIds g). linesHome g i = Some emptyLine"
    "\<forall>p \<in> set (oppRoster g). linesOpp g (p_id p) = Some emptyLine"
    "period g = ''Q1''" "scoreHome g = 0" "scoreOpp g = 0" "history g = []" "undo g = []"
    "games (store (setOppTemplate (ensureGame exampleApp exampleNewGameEnv) []))
       = games (store (ensureGame exampleApp exampleNewGameEnv))"
    unfolding t h gs by (auto simp: u)
  from g(4,5) have o: "oppRoster g = [\<lparr>p_id = ''op_c3_0'', p_no = ''4'', p_name = ''Guest'',
                          p_ht = [], p_cls = [], p_pos = ''G''\<rparr>]"
    by (cases "oppRoster g") auto
  show ?thesis
    using g o by (auto simp: t)
qed

text \<open>
  The template ids that the application generates are not of the form of a clone's id: the
  blank templates of the default store and those that \<open>loadStore\<close> adds to a snapshot
  without templates come from \<open>makeBlankRoster "opT"\<close>.
\<close>

lemma makeBlankRoster_opT_ids:
  "\<forall>q \<in> set (makeBlankRoster ''opT'' es). take 3 (p_id q) \<noteq> ''op_''"
  by (auto simp: makeBlankRoster_def uid_opT_prefix)

lemma defaultStore_template_ids:
  "\<forall>q \<in> set (roster_at (s_oppRoster (defaultStore es)) t). take 3 (p_id q) \<noteq> ''op_''"
  using makeBlankRoster_opT_ids by (cases t) (simp_all add: defaultStore_def)

lemma loadStore_Inr_opp:
  assumes "loadStore raw es = Inr ls"
  shows "ls_oppRoster ls = None \<or> ls_oppRoster ls = Some \<lparr>girls = makeBlankRoster ''opT'' es,
                          boys = makeBlankRoster ''opT'' (\<lambda>i. es (12 + i))\<rparr>"
proof (cases raw)
  case None
  with assms show ?thesis by (simp add: loadStore_def)
next
  case (Some parsed)
  show ?thesis
  proof (cases "own parsed ''games''")
    case None
    with assms Some show ?thesis
      by (auto simp: loadStore_def Let_def split: if_splits)
  next
    case (Some v)
    with assms \<open>raw = Some parsed\<close> show ?thesis
      by (cases v; cases "those (map migrateGame (arrayOrEmpty (Some v)))")
         (auto simp: loadStore_def Let_def arrayOrEmpty_def split: if_splits)
  qed
qed

lemma loadStore_template_ids:
  assumes "loadStore raw es = Inr ls" and "ls_oppRoster ls = Some r"
  shows "\<forall>q \<in> set (roster_at r t). take 3 (p_id q) \<noteq> ''op_''"
proof -
  from loadStore_Inr_opp[OF assms(1)] assms(2)
  have "r = \<lparr>girls = makeBlankRoster ''opT'' es,
             boys = makeBlankRoster ''opT'' (\<lambda>i. es (12 + i))\<rparr>"
    by simp
  then show ?thesis
    using makeBlankRoster_opT_ids by (cases t) simp_all
qed

section \<open>Scores of a loaded game\<close>

















section \<open>Undo on an empty stack\<close>

text \<open>
  Claim C7. When the active game's undo stack is empty, \<open>undoLast\<close> only sets the notice
  "Nothing to undo": the store, and with it every line, both scores, the history, the undo
  stack and the period of the game, is left as it was.
\<close>

theorem undoLast_nothing:
  assumes "activeGame app = Some a" and "undo a = []"
  shows "undoLast app = app\<lparr>toast := ''Nothing to undo''\<rparr>
       \<and> toast (undoLast app) = ''Nothing to undo''
       \<and> store (undoLast app) = store app
       \<and> activeGame (undoLast app) = Some a"
  using assms by (simp add: undoLast_def)

theorem undoLast_nothing_witness:
  "activeGame exampleApp = Some exampleGame \<and> undo exampleGame = []
   \<and> toast (undoLast exampleApp) = ''Nothing to undo''
   \<and> store (undoLast exampleApp) = store exampleApp"
proof -
  have u: "undo exampleGame = []" by (simp add: exampleGame_def)
  show ?thesis
    using undoLast_nothing[OF activeGame_exampleApp u] activeGame_exampleApp u by simp
qed

section \<open>Period transitions\<close>

lemma indexOf_notin: "x \<notin> set xs \<Longrightarrow> indexOf xs x = - 1"
  by (induction xs) (auto simp: Let_def)

lemma activeGame_nextPeriod:
  assumes "activeGame app = Some a"
  shows "activeGame (nextPeriod app) =
     Some (a\<lparr>period := PERIODS ! nat (min (int (length PERIODS) - 1)
                                          (indexOf PERIODS (periodOr (period a)) + 1))\<rparr>)"
  using assms by (simp add: nextPeriod_def Let_def activeGame_updateGame)

lemma nextPeriod_OT_iter:
  assumes "activeGame app = Some a" and "period a = ''OT''"
  shows "\<exists>a'. activeGame ((nextPeriod ^^ n) app) = Some a' \<and> period a' = ''OT''"
proof (induction n)
  case 0
  then show ?case using assms by simp
next
  case (Suc n)
  then obtain a' where a': "activeGame ((nextPeriod ^^ n) app) = Some a'" "period a' = ''OT''"
    by blast
  show ?case
    by (simp add: activeGame_nextPeriod[OF a'(1)] a'(2) PERIODS_def periodOr_def)
qed

lemma activeGame_setPeriod:
  "activeGame (setPeriod exampleApp p) = Some (exampleGame\<lparr>period := p\<rparr>)"
  by (simp add: setPeriod_def activeGame_exampleApp activeGame_updateGame)

text \<open>
  Claim C8, as the code has it. \<open>nextPeriod\<close> moves the period of the active game to the
  next entry of Q1, Q2, Q3, Q4, OT; at OT it stays at OT, also under repeated calls; a
  label that is not empty and not in the sequence leads to Q1. An empty label is read as
  Q1 (\<open>period || "Q1"\<close>), so it leads to Q2, not to Q1: the claim as stated fails there.
\<close>

theorem nextPeriod_advances:
  assumes "activeGame app = Some a"
  shows "\<exists>a'. activeGame (nextPeriod app) = Some a'
           \<and> (\<forall>i < length PERIODS. period a = PERIODS ! i \<longrightarrow>
                  period a' = PERIODS ! min (i + 1) (length PERIODS - 1))
           \<and> (period a = ''OT'' \<longrightarrow> period a' = ''OT''
                \<and> (\<forall>n. \<exists>b. activeGame ((nextPeriod ^^ n) app) = Some b \<and> period b = ''OT''))
           \<and> (period a \<notin> set PERIODS \<and> period a \<noteq> [] \<longrightarrow> period a' = ''Q1'')
           \<and> (period a = [] \<longrightarrow> period a' = ''Q2'')"
proof -
  let ?a' = "a\<lparr>period := PERIODS ! nat (min (int (length PERIODS) - 1)
                                          (indexOf PERIODS (periodOr (period a)) + 1))\<rparr>"
  have act: "activeGame (nextPeriod app) = Some ?a'"
    by (rule activeGame_nextPeriod[OF assms])
  have seq: "period ?a' = PERIODS ! min (i + 1) (length PERIODS - 1)"
    if "i < length PERIODS" "period a = PERIODS ! i" for i
  proof -
    from that(1) have "i = 0 \<or> i = 1 \<or> i = 2 \<or> i = 3 \<or> i = 4"
      by (auto simp: PERIODS_def)
    with that(2) show ?thesis
      by (auto simp: PERIODS_def periodOr_def)
  qed
  have ot: "period ?a' = ''OT''" if "period a = ''OT''"
    using that by (simp add: PERIODS_def periodOr_def)
  have custom: "period ?a' = ''Q1''" if "period a \<notin> set PERIODS" "period a \<noteq> []"
    using that indexOf_notin[OF that(1)] by (simp add: periodOr_def) (simp add: PERIODS_def)
  have blank: "period ?a' = ''Q2''" if "period a = []"
    using that by (simp add: PERIODS_def periodOr_def)
  show ?thesis
    using act seq ot custom blank nextPeriod_OT_iter[OF assms] by auto
qed

theorem nextPeriod_advances_witness:
  "map_option period (activeGame (setPeriod exampleApp ''Q3'')) = Some (PERIODS ! 2)
   \<and> map_option period (activeGame (nextPeriod (setPeriod exampleApp ''Q3''))) = Some ''Q4''
   \<and> map_option period (activeGame (setPeriod exampleApp ''OT'')) = Some ''OT''
   \<and> map_option period (activeGame (nextPeriod (setPeriod exampleApp ''OT''))) = Some ''OT''
   \<and> map_option period (activeGame (nextPeriod (nextPeriod (setPeriod exampleApp ''OT'')))) = Some ''OT''
   \<and> ''2H'' \<notin> set PERIODS
   \<and> map_option period (activeGame (nextPeriod (setPeriod exampleApp ''2H''))) = Some ''Q1''
   \<and> map_option period (activeGame (nextPeriod (setPeriod exampleApp []))) = Some ''Q2''"
proof -
  have p: "period (exampleGame\<lparr>period := q\<rparr>) = q" for q by simp
  have n: "''2H'' \<notin> set PERIODS" "''2H'' \<noteq> []" by (simp_all add: PERIODS_def)
  have i: "(2::nat) < length PERIODS" "''Q3'' = PERIODS ! 2" "PERIODS ! min (2 + 1) (length PERIODS - 1) = ''Q4''"
    by (simp_all add: PERIODS_def)
  from nextPeriod_advances[OF activeGame_setPeriod, of "''Q3''"] i
  have w1: "map_option period (activeGame (nextPeriod (setPeriod exampleApp ''Q3''))) = Some ''Q4''"
    unfolding p by auto
  from nextPeriod_advances[OF activeGame_setPeriod, of "''OT''"]
  obtain a' where "activeGame (nextPeriod (setPeriod exampleApp ''OT'')) = Some a'" "period a' = ''OT''"
    and it: "\<forall>n. \<exists>b. activeGame ((nextPeriod ^^ n) (setPeriod exampleApp ''OT'')) = Some b \<and> period b = ''OT''"
    unfolding p by auto
  then have w2: "map_option period (activeGame (nextPeriod (setPeriod exampleApp ''OT''))) = Some ''OT''"
    by simp
  from it[rule_format, of 2]
  have w3: "map_option period (activeGame (nextPeriod (nextPeriod (setPeriod exampleApp ''OT'')))) = Some ''OT''"
    by (auto simp: numeral_2_eq_2)
  from nextPeriod_advances[OF activeGame_setPeriod, of "''2H''"] n
  have w4: "map_option period (activeGame (nextPeriod (setPeriod exampleApp ''2H''))) = Some ''Q1''"
    unfolding p by auto
  from nextPeriod_advances[OF activeGame_setPeriod, of "[]"]
  have w5: "map_option period (activeGame (nextPeriod (setPeriod exampleApp []))) = Some ''Q2''"
    unfolding p by auto
  show ?thesis
    using w1 w2 w3 w4 w5 n i by (simp add: activeGame_setPeriod)
qed

text \<open>
  The claim as stated, that a label outside the sequence leads to Q1, fails at the empty
  label, which \<open>setPeriod\<close> accepts like any other.
\<close>

theorem nextPeriod_blank_counterexample:
  "[] \<notin> set PERIODS
   \<and> map_option period (activeGame (setPeriod exampleApp [])) = Some []
   \<and> map_option period (activeGame (nextPeriod (setPeriod exampleApp []))) = Some ''Q2''"
  by (simp add: activeGame_nextPeriod[OF activeGame_setPeriod] activeGame_setPeriod
      PERIODS_def periodOr_def)

section \<open>Percentage strings\<close>

lemmas double_defs = feq_def fless_def fmul_def fdiv_def fadd_def fsub_def ffloor_def fceil_def
  frac_of_int_def pow2_def pow10_def ilog2_def dexp_def round_even_def fl_def Math_round_def

lemma fl_2_3: "fl (fdiv (frac_of_int 2) (frac_of_int 3)) = (6004799503160661, 9007199254740992)"
  by (simp add: double_defs Let_def)

lemma fl_times_1000:
  "fl (fmul (6004799503160661, 9007199254740992) (frac_of_int 1000))
     = (5864062014805333, 8796093022208)"
  by (simp add: double_defs Let_def)

lemma round_667: "Math_round (5864062014805333, 8796093022208) = 667"
  by (simp add: double_defs Let_def)

lemma fl_667_10:
  "fl (fdiv (frac_of_int 667) (frac_of_int 10)) = (4693595236650189, 70368744177664)"
  by (simp add: double_defs Let_def)

lemma string_66_7: "number_string (4693595236650189, 70368744177664) = ''66.7''"
  by (simp add: number_string_def pick_def render_def show_int_def digit_char_def double_defs
      Let_def)

lemma pct_2_3: "pct 2 3 = ''66.7%''"
  by (simp add: pct_def fl_2_3 fl_times_1000 round_667 fl_667_10 string_66_7)

lemma Math_round_nearest:
  assumes "0 < snd x"
  shows "2 * Math_round x * snd x - snd x \<le> 2 * fst x
       \<and> 2 * fst x < 2 * Math_round x * snd x + snd x"
proof -
  obtain a b where x: "x = (a, b)" by (cases x)
  with assms have b: "0 < 2 * b" by simp
  define n where "n = (a * 2 + b) div (b * 2)"
  have m: "Math_round x = n"
    by (simp add: x n_def Math_round_def fadd_def ffloor_def)
  have e: "(b * 2) * n + (a * 2 + b) mod (b * 2) = a * 2 + b"
    unfolding n_def by (rule mult_div_mod_eq)
  have r: "0 \<le> (a * 2 + b) mod (b * 2)" "(a * 2 + b) mod (b * 2) < b * 2"
    using b by simp_all
  have e': "2 * (n * b) + (a * 2 + b) mod (b * 2) = a * 2 + b"
    using e by (simp add: algebra_simps)
  have "2 * (n * b) - b \<le> 2 * a \<and> 2 * a < 2 * (n * b) + b"
    using e' r by linarith
  then show ?thesis
    using m unfolding x by (simp add: algebra_simps)
qed

text \<open>
  Claim C9. \<open>pct\<close> returns the empty string when \<open>att\<close> is 0. Otherwise, for whole numbers
  below \<open>2^53\<close>, it returns the decimal form of the number obtained by dividing \<open>made\<close> by
  \<open>att\<close>, multiplying by 1000, rounding to the nearest integer (\<open>Math.round\<close>: an integer
  within one half of its argument, the larger one at a tie), and dividing by 10, each
  division and multiplication in the arithmetic of doubles, followed by \<open>%\<close>. Two made of
  three attempted give "66.7%".
\<close>

theorem pct_spec:
  "pct made 0 = []
   \<and> (0 < att \<and> made < 2 ^ 53 \<and> att < 2 ^ 53 \<longrightarrow>
        pct made att
        = number_string
            (fl (fdiv (frac_of_int (Math_round
                   (fl (fmul (fl (fdiv (frac_of_int (int made)) (frac_of_int (int att))))
                             (frac_of_int 1000)))))
                      (frac_of_int 10))) @ ''%'')
   \<and> (\<forall>x. 0 < snd x \<longrightarrow>
          2 * Math_round x * snd x - snd x \<le> 2 * fst x
        \<and> 2 * fst x < 2 * Math_round x * snd x + snd x)
   \<and> pct 2 3 = ''66.7%''"
proof (intro conjI)
  show "pct made 0 = []"
    by (simp add: pct_def)
  show "0 < att \<and> made < 2 ^ 53 \<and> att < 2 ^ 53 \<longrightarrow>
        pct made att
        = number_string
            (fl (fdiv (frac_of_int (Math_round
                   (fl (fmul (fl (fdiv (frac_of_int (int made)) (frac_of_int (int att))))
                             (frac_of_int 1000)))))
                      (frac_of_int 10))) @ ''%''"
    by (simp add: pct_def)
  show "\<forall>x. 0 < snd x \<longrightarrow>
          2 * Math_round x * snd x - snd x \<le> 2 * fst x
        \<and> 2 * fst x < 2 * Math_round x * snd x + snd x"
    using Math_round_nearest by blast
  show "pct 2 3 = ''66.7%''"
    by (rule pct_2_3)
qed

theorem pct_spec_witness:
  "(0::nat) < 3 \<and> (2::nat) < 2 ^ 53 \<and> (3::nat) < 2 ^ 53
   \<and> pct 2 0 = []
   \<and> pct 2 3
       = number_string
            (fl (fdiv (frac_of_int (Math_round
                   (fl (fmul (fl (fdiv (frac_of_int 2) (frac_of_int 3))) (frac_of_int 1000)))))
                      (frac_of_int 10))) @ ''%''
   \<and> pct 2 3 = ''66.7%''
   \<and> Math_round (5864062014805333, 8796093022208) = 667
   \<and> 2 * 667 * 8796093022208 - 8796093022208 \<le> 2 * (5864062014805333::int)
   \<and> 2 * (5864062014805333::int) < 2 * 667 * 8796093022208 + 8796093022208"
proof -
  have r: "(0::nat) < 3 \<and> (2::nat) < 2 ^ 53 \<and> (3::nat) < 2 ^ 53" by simp
  have p: "(0::int) < snd (5864062014805333, 8796093022208)" by simp
  from pct_spec[of 2 3] r p show ?thesis
    by (simp add: fl_2_3 fl_times_1000 round_667 fl_667_10 string_66_7)
qed

text \<open>
  The arithmetic of doubles shows in the result: 201 of 400 is 50.25 per cent exactly, but
  the product computed by \<open>pct\<close> lies just below 502.5 and is rounded to 502.
\<close>

lemma pct_201_400: "pct 201 400 = ''50.2%''"
  by (simp add: pct_def number_string_def pick_def render_def show_int_def digit_char_def
      double_defs Let_def)

section \<open>Applying an event to an id without a line\<close>



end
